theory Spec2Isabelle
  imports Complex_Main "HOL-Library.Log_Nat"
begin

section \<open>Python values used by thetacheck\<close>

text \<open>
  This theory embeds \<^verbatim>\<open>src/thetacheck.py\<close>: the helper functions
  \<^verbatim>\<open>call_with_io\<close>, \<^verbatim>\<open>call_for_status_code\<close>, \<^verbatim>\<open>call_with_io_timed\<close>,
  \<^verbatim>\<open>readfile\<close> and the procedure \<^verbatim>\<open>main\<close>.  Strings are lists of
  characters (ASCII; file names and texts beyond ASCII are outside the model), Python's
  unbounded integers are \<open>int\<close>, and Python's \<^verbatim>\<open>float\<close> is IEEE binary64, modelled
  by the exact rational value of a finite double plus the two infinities and NaN.
\<close>

subsection \<open>Strings\<close>

text \<open>
  \<^verbatim>\<open>str.isspace\<close> on ASCII: tab, line feed, vertical tab, form feed, carriage
  return, the four separators 28 to 31, and the space.
\<close>

definition is_space :: "char \<Rightarrow> bool" where
  "is_space c = (let n = (of_char c :: nat) in (9 \<le> n \<and> n \<le> 13) \<or> (28 \<le> n \<and> n \<le> 32))"

text \<open>\<^verbatim>\<open>s.strip()\<close>: whitespace removed from both ends.\<close>

definition strip :: "string \<Rightarrow> string" where
  "strip s = rev (dropWhile is_space (rev (dropWhile is_space s)))"

definition is_digit :: "char \<Rightarrow> bool" where
  "is_digit c = (let n = (of_char c :: nat) in 48 \<le> n \<and> n \<le> 57)"

definition digit_val :: "char \<Rightarrow> int" where
  "digit_val c = of_char c - 48"

text \<open>The value of a string of decimal digits, most significant digit first.\<close>

definition digits_val :: "string \<Rightarrow> int" where
  "digits_val ds = foldl (\<lambda>acc c. 10 * acc + digit_val c) 0 ds"

definition lower_char :: "char \<Rightarrow> char" where
  "lower_char c = (let n = (of_char c :: nat) in if 65 \<le> n \<and> n \<le> 90 then char_of (n + 32) else c)"

text \<open>\<^verbatim>\<open>str(n)\<close> for an integer: decimal digits, with a minus sign when negative.\<close>

fun str_nat :: "nat \<Rightarrow> string" where
  "str_nat n = (if n < 10 then [char_of (48 + n)] else str_nat (n div 10) @ [char_of (48 + n mod 10)])"

definition str_int :: "int \<Rightarrow> string" where
  "str_int i = (if i < 0 then CHR ''-'' # str_nat (nat (- i)) else str_nat (nat i))"

text \<open>\<^verbatim>\<open>s.replace("\r\n", "\n")\<close>.\<close>

fun replace_crlf :: "string \<Rightarrow> string" where
  "replace_crlf (c # d # s) =
     (if c = CHR 0x0D \<and> d = CHR 0x0A then CHR 0x0A # replace_crlf s else c # replace_crlf (d # s))"
| "replace_crlf s = s"

text \<open>\<^verbatim>\<open>xs[:n]\<close>: a negative bound counts from the end of the list.\<close>

definition py_take :: "int \<Rightarrow> 'a list \<Rightarrow> 'a list" where
  "py_take n xs = (if 0 \<le> n then take (nat n) xs else take (length xs - nat (- n)) xs)"

subsection \<open>Floating point numbers\<close>

datatype pyfloat = Finite rat | Infinity bool | NaN

text \<open>
  \<open>Finite q\<close> is the double whose exact value is \<open>q\<close>, \<open>Infinity neg\<close> is the
  infinity of the given sign.  The sign of a zero is not kept: no comparison and no
  truth value observes it, it shows only where a zero is printed (\<^verbatim>\<open>-0.0\<close>).
\<close>

definition round_half_even :: "rat \<Rightarrow> int" where
  "round_half_even q =
     (let f = \<lfloor>q\<rfloor>; r = q - of_int f
      in if r < 1 / 2 then f else if 1 / 2 < r then f + 1 else if even f then f else f + 1)"

definition pow2 :: "int \<Rightarrow> rat" where
  "pow2 e = (if 0 \<le> e then of_int (2 ^ nat e) else 1 / of_int (2 ^ nat (- e)))"

definition pow10 :: "int \<Rightarrow> rat" where
  "pow10 e = (if 0 \<le> e then of_int (10 ^ nat e) else 1 / of_int (10 ^ nat (- e)))"

text \<open>The exponent \<open>e\<close> with \<open>2 ^ e \<le> a < 2 ^ (e + 1)\<close>, for a positive \<open>a\<close>.\<close>

definition floor_log2 :: "rat \<Rightarrow> int" where
  "floor_log2 a =
     (let (n, d) = quotient_of a; e0 = bitlen n - bitlen d
      in if pow2 e0 \<le> a then e0 else e0 - 1)"

text \<open>
  Rounding of a real value to binary64, to nearest with ties to even: 53 significant
  bits, the exponent not below that of the subnormals, and an infinity from
  \<open>2 ^ 1024\<close> on.
\<close>

definition round_to_double :: "rat \<Rightarrow> pyfloat" where
  "round_to_double q =
     (if q = 0 then Finite 0
      else let a = \<bar>q\<bar>;
               e = max (floor_log2 a) (- 1022);
               ulp = pow2 (e - 52);
               v = of_int (round_half_even (a / ulp)) * ulp
           in if pow2 1024 \<le> v then Infinity (q < 0)
              else Finite (if q < 0 then - v else v))"

text \<open>\<^verbatim>\<open>x - y\<close> on floats.\<close>

fun py_sub :: "pyfloat \<Rightarrow> pyfloat \<Rightarrow> pyfloat" where
  "py_sub (Finite a) (Finite b) = round_to_double (a - b)"
| "py_sub NaN _ = NaN"
| "py_sub _ NaN = NaN"
| "py_sub (Infinity s) (Infinity t) = (if s = t then NaN else Infinity s)"
| "py_sub (Infinity s) (Finite b) = Infinity s"
| "py_sub (Finite a) (Infinity t) = Infinity (\<not> t)"

text \<open>\<^verbatim>\<open>x * y\<close> on floats.\<close>

fun py_mul :: "pyfloat \<Rightarrow> pyfloat \<Rightarrow> pyfloat" where
  "py_mul (Finite a) (Finite b) = round_to_double (a * b)"
| "py_mul NaN _ = NaN"
| "py_mul _ NaN = NaN"
| "py_mul (Infinity s) (Infinity t) = Infinity (s \<noteq> t)"
| "py_mul (Infinity s) (Finite b) = (if b = 0 then NaN else Infinity (s \<noteq> (b < 0)))"
| "py_mul (Finite a) (Infinity t) = (if a = 0 then NaN else Infinity ((a < 0) \<noteq> t))"

text \<open>\<^verbatim>\<open>abs(x)\<close>.\<close>

fun py_abs :: "pyfloat \<Rightarrow> pyfloat" where
  "py_abs (Finite a) = Finite \<bar>a\<bar>"
| "py_abs (Infinity s) = Infinity False"
| "py_abs NaN = NaN"

text \<open>
  \<^verbatim>\<open>round(x, ndigits)\<close> for \<open>0 \<le> ndigits\<close>: the exact value of the double is rounded
  to \<open>ndigits\<close> decimal places, ties to even, and the decimal result is converted back
  to the nearest double.  Infinities and NaN round to themselves.
\<close>

fun py_round :: "nat \<Rightarrow> pyfloat \<Rightarrow> pyfloat" where
  "py_round nd (Finite a) =
     round_to_double (of_int (round_half_even (a * pow10 (int nd))) / pow10 (int nd))"
| "py_round nd x = x"

text \<open>\<^verbatim>\<open>x <= y\<close> and \<^verbatim>\<open>x > y\<close> on floats: every comparison with NaN is false.\<close>

fun py_le :: "pyfloat \<Rightarrow> pyfloat \<Rightarrow> bool" where
  "py_le (Finite a) (Finite b) = (a \<le> b)"
| "py_le NaN _ = False"
| "py_le _ NaN = False"
| "py_le (Infinity s) (Infinity t) = (s \<or> \<not> t)"
| "py_le (Infinity s) (Finite b) = s"
| "py_le (Finite a) (Infinity t) = (\<not> t)"

definition py_gt :: "pyfloat \<Rightarrow> pyfloat \<Rightarrow> bool" where
  "py_gt x y = (x \<noteq> NaN \<and> y \<noteq> NaN \<and> \<not> py_le x y)"

text \<open>The truth value of a float: false exactly for zero.\<close>

definition py_truthy :: "pyfloat \<Rightarrow> bool" where
  "py_truthy x = (x \<noteq> Finite 0)"

text \<open>
  \<^verbatim>\<open>float(s)\<close> for a string.  Underscores may separate digits: each one must follow
  a digit and be followed by a digit.
\<close>

fun underscores_ok :: "char \<Rightarrow> string \<Rightarrow> bool" where
  "underscores_ok prev [] = (prev \<noteq> CHR ''_'')"
| "underscores_ok prev (c # s) =
     (if c = CHR ''_'' then is_digit prev \<and> underscores_ok c s
      else (prev = CHR ''_'' \<longrightarrow> is_digit c) \<and> underscores_ok c s)"

text \<open>The exponent part: nothing, or \<open>e\<close>, an optional sign and at least one digit.\<close>

definition parse_exponent :: "string \<Rightarrow> int option" where
  "parse_exponent s =
     (case s of
        [] \<Rightarrow> Some 0
      | c # r \<Rightarrow>
          if c = CHR ''e'' \<or> c = CHR ''E'' then
            (let (neg, ds) =
                   (case r of
                      [] \<Rightarrow> (False, [])
                    | d # r' \<Rightarrow>
                        if d = CHR ''-'' then (True, r')
                        else if d = CHR ''+'' then (False, r') else (False, r))
             in if ds \<noteq> [] \<and> list_all is_digit ds
                then Some (if neg then - digits_val ds else digits_val ds)
                else None)
          else None)"

text \<open>
  An unsigned decimal number: digits, an optional point and digits, with at least one
  digit before or after the point, and an optional exponent.  The result is its exact
  value.
\<close>

definition parse_decimal :: "string \<Rightarrow> rat option" where
  "parse_decimal s =
     (let ip = takeWhile is_digit s;
          r1 = dropWhile is_digit s;
          (fp, r2) =
            (case r1 of
               [] \<Rightarrow> ([], [])
             | c # r \<Rightarrow>
                 if c = CHR ''.'' then (takeWhile is_digit r, dropWhile is_digit r)
                 else ([], r1))
      in if ip @ fp = [] then None
         else (case parse_exponent r2 of
                 None \<Rightarrow> None
               | Some e \<Rightarrow> Some (of_int (digits_val (ip @ fp)) * pow10 (e - int (length fp)))))"

text \<open>
  \<^verbatim>\<open>float\<close> removes from both ends of an ASCII string the six characters that are
  white space for C: tab, line feed, vertical tab, form feed, carriage return and the
  space; the separators 28 to 31 are not among them.
\<close>

definition is_c_space :: "char \<Rightarrow> bool" where
  "is_c_space c = (let n = (of_char c :: nat) in (9 \<le> n \<and> n \<le> 13) \<or> n = 32)"

definition c_strip :: "string \<Rightarrow> string" where
  "c_strip s = rev (dropWhile is_c_space (rev (dropWhile is_c_space s)))"

text \<open>
  \<open>None\<close> stands for the \<^verbatim>\<open>ValueError\<close> that \<^verbatim>\<open>float\<close> raises on a string
  that is not a number.
\<close>

definition py_float :: "string \<Rightarrow> pyfloat option" where
  "py_float s =
     (let t = c_strip s
      in if \<not> underscores_ok (CHR 0x00) t then None
         else
           (let u = filter (\<lambda>c. c \<noteq> CHR ''_'') t;
                (neg, body) =
                  (case u of
                     [] \<Rightarrow> (False, [])
                   | c # r \<Rightarrow>
                       if c = CHR ''-'' then (True, r)
                       else if c = CHR ''+'' then (False, r) else (False, u));
                low = map lower_char body
            in if low = ''inf'' \<or> low = ''infinity'' then Some (Infinity neg)
               else if low = ''nan'' then Some NaN
               else (case parse_decimal body of
                       None \<Rightarrow> None
                     | Some q \<Rightarrow> Some (round_to_double (if neg then - q else q)))))"

text \<open>
  \<^verbatim>\<open>a / b\<close> on integers is the correctly rounded quotient; \<open>None\<close> stands for
  \<^verbatim>\<open>ZeroDivisionError\<close>.  (The \<^verbatim>\<open>OverflowError\<close> of a quotient beyond the
  doubles needs counts of more than 300 digits and is left out.)  The percentages
  printed by \<^verbatim>\<open>main\<close> are all of the form \<^verbatim>\<open>round(a / b * 100, 2)\<close>.
\<close>

definition py_truediv :: "int \<Rightarrow> int \<Rightarrow> pyfloat option" where
  "py_truediv a b = (if b = 0 then None else Some (round_to_double (of_int a / of_int b)))"

definition percent :: "int \<Rightarrow> int \<Rightarrow> pyfloat option" where
  "percent a b = map_option (\<lambda>q. py_round 2 (py_mul q (Finite 100))) (py_truediv a b)"

section \<open>The world outside the program\<close>

text \<open>
  What a library call or a child process answers is outside the program: it is a
  parameter of the model.  The world answers the same call in the same way each time
  (the two calls of \<^verbatim>\<open>glob.glob\<close> in lines 62 and 63 see the same directory).  A
  blocking call returns, raises an exception (a subclass of \<^verbatim>\<open>Exception\<close>), or is
  cut by \<^verbatim>\<open>KeyboardInterrupt\<close> when the user cancels while it runs.  The cancel
  signal is modelled at the two calls on which \<^verbatim>\<open>main\<close> waits, the run of the
  program under test and the run of the checker.
\<close>

datatype 'a call = Returns 'a | Raises | KeyboardInterrupt

text \<open>
  A finished child process: the captured standard output, decoded, the exit status, and
  the wall-clock seconds that \<^verbatim>\<open>time.time()\<close> measured around the call.
\<close>

record process =
  stdout :: string
  returncode :: int
  elapsed :: pyfloat

record world =
  tqdm_enabled :: bool
  os_listdir :: "string \<Rightarrow> string list option"
  glob_glob :: "string \<Rightarrow> string list"
  os_path_exists :: "string \<Rightarrow> bool"
  os_path_getsize :: "string \<Rightarrow> int option"
  random_shuffle :: "string list \<Rightarrow> string list"
  file_read :: "string \<Rightarrow> string option"
  subprocess_run :: "string \<Rightarrow> string \<Rightarrow> process call"

text \<open>
  \<open>os_listdir\<close>, \<open>os_path_getsize\<close> and \<open>file_read\<close> answer \<open>None\<close> where the
  call raises (a missing directory, a file that cannot be opened or decoded);
  \<open>file_read\<close> answers the text that \<^verbatim>\<open>file.read()\<close> returns.
  \<open>subprocess_run w command input\<close> runs the shell command on the given standard
  input; \<open>random_shuffle\<close> is the order that \<^verbatim>\<open>random.shuffle\<close> leaves.
\<close>

text \<open>
  The exceptions that can leave \<^verbatim>\<open>main\<close>; \<open>OSError\<close> stands for whatever a
  failing call of the world raises.
\<close>

datatype py_error = ZeroDivisionError | ValueError | OSError

text \<open>\<^verbatim>\<open>os.path.join(a, b)\<close> on POSIX paths.\<close>

definition os_path_join :: "string \<Rightarrow> string \<Rightarrow> string" where
  "os_path_join a b =
     (if b \<noteq> [] \<and> hd b = CHR ''/'' then b
      else if a = [] \<or> last a = CHR ''/'' then a @ b
      else a @ ''/'' @ b)"

section \<open>The helper functions\<close>

text \<open>
  \<^verbatim>\<open>call_with_io\<close> (lines 22 to 26, the definition used when the optional module
  \<^verbatim>\<open>gamma\<close> is not installed): the output of the command with CRLF turned into LF.
\<close>

definition call_with_io :: "world \<Rightarrow> string \<Rightarrow> string \<Rightarrow> string call" where
  "call_with_io w command string =
     (case subprocess_run w command string of
        Returns p \<Rightarrow> Returns (replace_crlf (stdout p))
      | Raises \<Rightarrow> Raises
      | KeyboardInterrupt \<Rightarrow> KeyboardInterrupt)"

text \<open>
  \<^verbatim>\<open>call_for_status_code\<close> (lines 28 to 35): \<^verbatim>\<open>check_output\<close> raises
  \<^verbatim>\<open>CalledProcessError\<close> on a nonzero exit status, which is caught and its status
  returned; otherwise the result is 0.
\<close>

definition call_for_status_code :: "world \<Rightarrow> string \<Rightarrow> string \<Rightarrow> int call" where
  "call_for_status_code w command string =
     (case subprocess_run w command string of
        Returns p \<Rightarrow> Returns (if returncode p \<noteq> 0 then returncode p else 0)
      | Raises \<Rightarrow> Raises
      | KeyboardInterrupt \<Rightarrow> KeyboardInterrupt)"

text \<open>
  \<^verbatim>\<open>call_with_io_timed\<close> (lines 37 to 41): the result and \<^verbatim>\<open>end - start\<close>, the
  seconds that the world reports for that run of the command.
\<close>

definition call_with_io_timed :: "world \<Rightarrow> string \<Rightarrow> string \<Rightarrow> (string \<times> pyfloat) call" where
  "call_with_io_timed w command string =
     (case call_with_io w command string of
        Returns result \<Rightarrow>
          (case subprocess_run w command string of
             Returns p \<Rightarrow> Returns (result, elapsed p)
           | Raises \<Rightarrow> Raises
           | KeyboardInterrupt \<Rightarrow> KeyboardInterrupt)
      | Raises \<Rightarrow> Raises
      | KeyboardInterrupt \<Rightarrow> KeyboardInterrupt)"

text \<open>\<^verbatim>\<open>readfile\<close> (lines 43 to 46).\<close>

definition readfile :: "world \<Rightarrow> string \<Rightarrow> string option" where
  "readfile w filename = file_read w filename"

section \<open>The procedure main\<close>

subsection \<open>Parameters, statistics and printed lines\<close>

text \<open>The parameters of \<^verbatim>\<open>main\<close> (lines 48 to 50); \<open>None\<close> is Python's \<^verbatim>\<open>None\<close>.\<close>

record config =
  app :: string
  directory :: string
  checker :: "string option"
  verbose :: bool
  extra_verbose :: bool
  result_dist :: "pyfloat option"
  one_file :: "string option"
  limit :: "int option"
  shuffle :: bool
  do_sort :: bool
  natural_sort :: bool
  empty_means_any :: bool
  timer :: bool

text \<open>
  The local variables that the loop updates (lines 76 to 81, and \<^verbatim>\<open>approx_total\<close>).
  \<^verbatim>\<open>total\<close> and \<^verbatim>\<open>times\<close> carry a suffix, the plain names being taken.
\<close>

record stats =
  approx_total :: int
  total_n :: nat
  correct :: nat
  overtime_count :: nat
  wrong :: "string list"
  overtime :: "string list"
  times_l :: "pyfloat list"

text \<open>
  One constructor for each \<^verbatim>\<open>print\<close> of \<^verbatim>\<open>main\<close>, with the values that are
  formatted into the line.  The progress bar of \<^verbatim>\<open>tqdm\<close> and the traceback go to the
  error stream and are not recorded.
\<close>

datatype line =
    Test_progress string string nat int pyfloat
  | Blank
  | Error_missing_out string
  | Error_empty_input string
  | Input_text string
  | Expected_text string
  | Error_exception string string
  | Process_took pyfloat
  | Got_text string
  | Checker_text string
  | Correct_line
  | Wrong_line string string
  | Done_testing string
  | No_valid_tests
  | Correct_out_of nat nat pyfloat
  | Tests_that_failed
  | Name_list "string list"
  | Went_overtime nat nat pyfloat
  | Times_line "pyfloat list"

text \<open>
  How one pass through the loop body ends: the loop goes on with the next file, or it
  stops, either because the \<^verbatim>\<open>KeyboardInterrupt\<close> handler of line 148 ends the loop
  or because an exception that no handler catches leaves \<^verbatim>\<open>main\<close>.
\<close>

datatype stop = Cancelled | Raise py_error

datatype flow = Next | Stop stop

definition effective_verbose :: "config \<Rightarrow> bool" where
  "effective_verbose cfg = (verbose cfg \<or> extra_verbose cfg)"

definition tqdm_running :: "config \<Rightarrow> world \<Rightarrow> bool" where
  "tqdm_running cfg w = (tqdm_enabled w \<and> \<not> effective_verbose cfg)"

definition verbose_print :: "config \<Rightarrow> line \<Rightarrow> line list" where
  "verbose_print cfg l = (if effective_verbose cfg then [l] else [])"

definition extra_verbose_print :: "config \<Rightarrow> line \<Rightarrow> line list" where
  "extra_verbose_print cfg l = (if extra_verbose cfg then [l] else [])"

text \<open>The empty \<^verbatim>\<open>print()\<close> that ends the line of a running progress bar.\<close>

definition bar_break :: "config \<Rightarrow> world \<Rightarrow> line list" where
  "bar_break cfg w = (if tqdm_running cfg w then [Blank] else [])"

subsection \<open>The loop body\<close>

text \<open>
  Lines 129 to 139, the verdict.  The result is the verdict with the text that stands
  for the expected output afterwards and the lines printed, or the way the evaluation
  fails: \<^verbatim>\<open>float\<close> raises \<^verbatim>\<open>ValueError\<close>, and the checker call can be cancelled
  or raise.
\<close>

definition evaluate ::
  "config \<Rightarrow> world \<Rightarrow> string \<Rightarrow> string \<Rightarrow> string \<Rightarrow> stop + (bool \<times> string \<times> line list)" where
  "evaluate cfg w indata outdata out =
     (case result_dist cfg of
        Some eps \<Rightarrow>
          (case py_float outdata of
             None \<Rightarrow> Inl (Raise ValueError)
           | Some x \<Rightarrow>
               (case py_float out of
                  None \<Rightarrow> Inl (Raise ValueError)
                | Some y \<Rightarrow> Inr (py_le (py_round 10 (py_abs (py_sub x y))) eps, outdata, [])))
      | None \<Rightarrow>
          (case checker cfg of
             Some chk \<Rightarrow>
               (let checker_input = indata @ [CHR 0x0A] @ out
                in case call_for_status_code w chk checker_input of
                     KeyboardInterrupt \<Rightarrow> Inl Cancelled
                   | Raises \<Rightarrow> Inl (Raise OSError)
                   | Returns code \<Rightarrow>
                       (let outdata' = ''[[Got status code '' @ str_int code @ '' from '' @ chk @ '']]''
                        in Inr (code = 0, outdata', extra_verbose_print cfg (Checker_text outdata'))))
           | None \<Rightarrow> Inr ((empty_means_any cfg \<and> outdata = []) \<or> outdata = out, outdata, [])))"

text \<open>
  Lines 121 to 147, the \<^verbatim>\<open>else\<close> part of the inner \<^verbatim>\<open>try\<close>: the invocation
  returned \<open>out\<close> after \<open>time_taken\<close> seconds.
\<close>

definition after_invocation ::
  "config \<Rightarrow> world \<Rightarrow> stats \<Rightarrow> string \<Rightarrow> string \<Rightarrow> string \<Rightarrow> string \<Rightarrow> pyfloat
     \<Rightarrow> flow \<times> line list \<times> stats" where
  "after_invocation cfg w st test_name indata outdata out time_taken =
     (let l1 = (if effective_verbose cfg \<and> (timer cfg \<or> py_gt time_taken (Finite 1))
                then [Process_took (py_round 2 time_taken)] else []);
          st1 = (if py_gt time_taken (Finite 1)
                 then st\<lparr>overtime_count := overtime_count st + 1,
                         overtime := overtime st @ [test_name]\<rparr>
                 else st);
          st2 = (if timer cfg then st1\<lparr>times_l := times_l st1 @ [time_taken]\<rparr> else st1);
          l2 = l1 @ extra_verbose_print cfg (Got_text out)
      in case evaluate cfg w indata outdata out of
           Inl s \<Rightarrow> (Stop s, l2, st2)
         | Inr (is_correct, outdata', l3) \<Rightarrow>
             if is_correct
             then (Next, l2 @ l3 @ verbose_print cfg Correct_line,
                   st2\<lparr>correct := correct st2 + 1, total_n := total_n st2 + 1\<rparr>)
             else (Next,
                   l2 @ l3 @ (if \<not> extra_verbose cfg
                              then verbose_print cfg (Wrong_line outdata' out) else []),
                   st2\<lparr>wrong := wrong st2 @ [test_name], total_n := total_n st2 + 1\<rparr>))"

text \<open>
  Lines 106 to 147: the input and the expected output are known.  An empty input is an
  error that skips the case; otherwise the program under test is invoked.
\<close>

definition after_discovery ::
  "config \<Rightarrow> world \<Rightarrow> stats \<Rightarrow> string \<Rightarrow> string \<Rightarrow> string \<Rightarrow> string
     \<Rightarrow> flow \<times> line list \<times> stats" where
  "after_discovery cfg w st test_name infile indata outdata =
     (if indata = []
      then (Next, bar_break cfg w @ [Error_empty_input infile],
            st\<lparr>approx_total := approx_total st - 1\<rparr>)
      else
        (let l1 = extra_verbose_print cfg (Input_text indata)
                  @ extra_verbose_print cfg
                      (Expected_text (if outdata \<noteq> [] then outdata else ''[[None given]]''))
         in case call_with_io_timed w (app cfg) indata of
              KeyboardInterrupt \<Rightarrow> (Stop Cancelled, l1, st)
            | Raises \<Rightarrow>
                (Next, l1 @ bar_break cfg w @ [Error_exception test_name (app cfg)], st)
            | Returns (out, time_taken) \<Rightarrow>
                (case after_invocation cfg w st test_name indata outdata (strip out) time_taken of
                   (fl, l2, st') \<Rightarrow> (fl, l1 @ l2, st'))))"

text \<open>
  Lines 90 to 147, one pass through the loop body for \<open>file\<close>.  The arguments of the
  progress line are computed whether or not the line is printed.
\<close>

definition run_case ::
  "config \<Rightarrow> world \<Rightarrow> string set \<Rightarrow> stats \<Rightarrow> string \<Rightarrow> flow \<times> line list \<times> stats" where
  "run_case cfg w all_files st file =
     (let test_name = take (length file - 3) file;
          infile = file;
          outfile = test_name @ ''.out'';
          filenote = (if extra_verbose cfg then '' ('' @ infile @ '' & '' @ outfile @ '')'' else [])
      in case percent (int (total_n st)) (approx_total st) of
           None \<Rightarrow> (Stop (Raise ZeroDivisionError), [], st)
         | Some pct \<Rightarrow>
             (let l0 = verbose_print cfg
                         (Test_progress test_name filenote (total_n st) (approx_total st) pct)
              in case readfile w infile of
                   None \<Rightarrow> (Stop (Raise OSError), l0, st)
                 | Some intext \<Rightarrow>
                     (let indata = strip intext
                      in if outfile \<notin> all_files
                         then
                           (if \<not> empty_means_any cfg \<and> checker cfg = None
                            then (Next, l0 @ bar_break cfg w @ [Error_missing_out infile],
                                  st\<lparr>approx_total := approx_total st - 1\<rparr>)
                            else
                              (case after_discovery cfg w st test_name infile indata [] of
                                 (fl, l1, st') \<Rightarrow> (fl, l0 @ l1, st')))
                         else
                           (case readfile w outfile of
                              None \<Rightarrow> (Stop (Raise OSError), l0, st)
                            | Some outtext \<Rightarrow>
                                (case after_discovery cfg w st test_name infile indata
                                        (strip outtext) of
                                   (fl, l1, st') \<Rightarrow> (fl, l0 @ l1, st'))))))"

text \<open>Lines 89 to 150: the loop over the files, ended early by a cancellation or an exception.\<close>

fun run_cases ::
  "config \<Rightarrow> world \<Rightarrow> string set \<Rightarrow> stats \<Rightarrow> string list \<Rightarrow> flow \<times> line list \<times> stats" where
  "run_cases cfg w all_files st [] = (Next, [], st)"
| "run_cases cfg w all_files st (file # files) =
     (case run_case cfg w all_files st file of
        (Next, l1, st1) \<Rightarrow>
          (case run_cases cfg w all_files st1 files of (fl, l2, st2) \<Rightarrow> (fl, l1 @ l2, st2))
      | (fl, l1, st1) \<Rightarrow> (fl, l1, st1))"

subsection \<open>Discovery and ordering\<close>

text \<open>
  \<^verbatim>\<open>list.sort(key=...)\<close> is stable and compares keys with \<^verbatim>\<open><\<close> only: an element
  is put before the first element of the sorted rest whose key is not smaller.
\<close>

fun insert_by :: "('k \<Rightarrow> 'k \<Rightarrow> bool) \<Rightarrow> ('a \<Rightarrow> 'k) \<Rightarrow> 'a \<Rightarrow> 'a list \<Rightarrow> 'a list" where
  "insert_by lt key x [] = [x]"
| "insert_by lt key x (y # ys) =
     (if lt (key y) (key x) then y # insert_by lt key x ys else x # y # ys)"

definition sort_by :: "('k \<Rightarrow> 'k \<Rightarrow> bool) \<Rightarrow> ('a \<Rightarrow> 'k) \<Rightarrow> 'a list \<Rightarrow> 'a list" where
  "sort_by lt key xs = foldr (insert_by lt key) xs []"

text \<open>
  The key of the natural sort (lines 69 to 72): \<^verbatim>\<open>re.split("([0-9]+)", f)\<close> cuts the
  name into texts without digits and runs of digits, in turn and starting with a text,
  and \<^verbatim>\<open>tryint\<close> turns each run of digits into its number (runs too long for
  \<^verbatim>\<open>int\<close>, of more than 4300 digits, are left out).
\<close>

datatype key_part = Text string | Number int

fun text_run :: "string \<Rightarrow> string \<Rightarrow> key_part list"
  and digit_run :: "string \<Rightarrow> string \<Rightarrow> key_part list" where
  "text_run acc [] = [Text (rev acc)]"
| "text_run acc (c # s) =
     (if is_digit c then Text (rev acc) # digit_run [c] s else text_run (c # acc) s)"
| "digit_run acc [] = [Number (digits_val (rev acc)), Text []]"
| "digit_run acc (c # s) =
     (if is_digit c then digit_run (c # acc) s
      else Number (digits_val (rev acc)) # text_run [c] s)"

definition natural_key :: "string \<Rightarrow> key_part list" where
  "natural_key f = text_run [] f"

text \<open>\<^verbatim>\<open><\<close> on strings, on the parts of a key and on keys (lists compare lexicographically).\<close>

fun str_less :: "string \<Rightarrow> string \<Rightarrow> bool" where
  "str_less [] [] = False"
| "str_less [] (b # t) = True"
| "str_less (a # s) [] = False"
| "str_less (a # s) (b # t) =
     (if a = b then str_less s t else (of_char a :: nat) < of_char b)"

text \<open>
  A text and a number never meet: every key starts with a text and alternates, so that
  equal positions hold equal kinds.
\<close>

fun part_less :: "key_part \<Rightarrow> key_part \<Rightarrow> bool" where
  "part_less (Number a) (Number b) = (a < b)"
| "part_less (Text s) (Text t) = str_less s t"
| "part_less _ _ = False"

fun key_less :: "key_part list \<Rightarrow> key_part list \<Rightarrow> bool" where
  "key_less [] [] = False"
| "key_less [] (y # ys) = True"
| "key_less (x # xs) [] = False"
| "key_less (x # xs) (y # ys) = (if x = y then key_less xs ys else part_less x y)"

text \<open>
  Lines 56 to 63: the set of existing files, the list of input files and the first value
  of \<^verbatim>\<open>approx_total\<close>.
\<close>

definition discover :: "config \<Rightarrow> world \<Rightarrow> py_error + (string set \<times> string list \<times> int)" where
  "discover cfg w =
     (case one_file cfg of
        Some name \<Rightarrow>
          Inr (set (filter (os_path_exists w) [name @ ''.in'', name @ ''.out'']),
               [name @ ''.in''], 1)
      | None \<Rightarrow>
          (case os_listdir w (directory cfg) of
             None \<Rightarrow> Inl OSError
           | Some names \<Rightarrow>
               Inr (set (map (os_path_join (directory cfg)) names),
                    glob_glob w (os_path_join (directory cfg) ''*.in''),
                    int (length (glob_glob w (os_path_join (directory cfg) ''*.in''))))))"

text \<open>Lines 64 to 72: at most one of the three orderings is applied.\<close>

definition order_files :: "config \<Rightarrow> world \<Rightarrow> string list \<Rightarrow> py_error + string list" where
  "order_files cfg w files =
     (if shuffle cfg then Inr (random_shuffle w files)
      else if do_sort cfg then
        (if list_all (\<lambda>f. os_path_getsize w f \<noteq> None) files
         then Inr (sort_by (\<lambda>a b. a < b) (\<lambda>f. case os_path_getsize w f of Some n \<Rightarrow> n | None \<Rightarrow> 0) files)
         else Inl OSError)
      else if natural_sort cfg then Inr (sort_by key_less natural_key files)
      else Inr files)"

text \<open>Lines 73 to 75: the limit cuts the list and replaces \<^verbatim>\<open>approx_total\<close>.\<close>

definition apply_limit :: "config \<Rightarrow> string list \<Rightarrow> int \<Rightarrow> string list \<times> int" where
  "apply_limit cfg files n =
     (case limit cfg of
        Some l \<Rightarrow> if l < n then (py_take l files, l) else (files, n)
      | None \<Rightarrow> (files, n))"

subsection \<open>The report and main\<close>

text \<open>\<^verbatim>\<open>round(t, 4) for t in times if round(t, 4)\<close> (line 163).\<close>

definition printed_times :: "pyfloat list \<Rightarrow> pyfloat list" where
  "printed_times ts = filter py_truthy (map (py_round 4) ts)"

text \<open>Lines 151 to 164: the summary and the value that \<^verbatim>\<open>main\<close> returns.\<close>

definition report :: "config \<Rightarrow> stats \<Rightarrow> line list \<times> (py_error + bool)" where
  "report cfg st =
     (if total_n st = 0 then ([Done_testing (app cfg), No_valid_tests], Inr False)
      else
        (case percent (int (correct st)) (int (total_n st)) of
           None \<Rightarrow> ([Done_testing (app cfg)], Inl ZeroDivisionError)
         | Some pc \<Rightarrow>
             (let l1 = [Done_testing (app cfg), Correct_out_of (correct st) (total_n st) pc]
                       @ (if wrong st \<noteq> [] then [Tests_that_failed, Name_list (wrong st)] else [])
              in if overtime st \<noteq> [] then
                   (case percent (int (overtime_count st)) (int (total_n st)) of
                      None \<Rightarrow> (l1, Inl ZeroDivisionError)
                    | Some po \<Rightarrow>
                        (l1 @ [Went_overtime (overtime_count st) (total_n st) po,
                               Name_list (overtime st)]
                            @ (if timer cfg then [Times_line (printed_times (times_l st))] else []),
                         Inr True))
                 else
                   (l1 @ (if timer cfg then [Times_line (printed_times (times_l st))] else []),
                    Inr True))))"

definition initial_stats :: "int \<Rightarrow> stats" where
  "initial_stats n =
     \<lparr>approx_total = n, total_n = 0, correct = 0, overtime_count = 0,
      wrong = [], overtime = [], times_l = []\<rparr>"

text \<open>
  Lines 56 to 150: discovery, ordering, the limit and the loop.  The result is the way
  the loop ended, the lines printed and the statistics.
\<close>

definition testing_loop :: "config \<Rightarrow> world \<Rightarrow> py_error + (flow \<times> line list \<times> stats)" where
  "testing_loop cfg w =
     (case discover cfg w of
        Inl e \<Rightarrow> Inl e
      | Inr (all_files, files0, n0) \<Rightarrow>
          (case order_files cfg w files0 of
             Inl e \<Rightarrow> Inl e
           | Inr files1 \<Rightarrow>
               (case apply_limit cfg files1 n0 of
                  (files, n) \<Rightarrow> Inr (run_cases cfg w all_files (initial_stats n) files))))"

text \<open>
  \<^verbatim>\<open>main\<close>: the lines printed and either the value returned or the exception that
  leaves the procedure.  A cancelled loop is followed by the report as a completed one.
\<close>

definition main :: "config \<Rightarrow> world \<Rightarrow> line list \<times> (py_error + bool)" where
  "main cfg w =
     (case testing_loop cfg w of
        Inl e \<Rightarrow> ([], Inl e)
      | Inr (Stop (Raise e), l1, st) \<Rightarrow> (l1, Inl e)
      | Inr (fl, l1, st) \<Rightarrow> (case report cfg st of (l2, r) \<Rightarrow> (l1 @ l2, r)))"

section \<open>Notions used in the properties\<close>

text \<open>
  A case is skipped for a missing expected-output file: the error line of line 99 is
  printed, the pool size is decremented and nothing else changes.
\<close>

definition skipped_for_missing_out ::
  "config \<Rightarrow> world \<Rightarrow> string set \<Rightarrow> stats \<Rightarrow> string \<Rightarrow> bool" where
  "skipped_for_missing_out cfg w all_files st file =
     (case run_case cfg w all_files st file of
        (fl, l, st') \<Rightarrow>
          fl = Next \<and> Error_missing_out file \<in> set l
          \<and> st' = st\<lparr>approx_total := approx_total st - 1\<rparr>)"

text \<open>
  The verdict as the specification words it: the numeric comparison if a tolerance is
  configured, else the exit status of the checker if one is configured, else the exact
  comparison with the empty-means-any rule.  \<open>None\<close> where no verdict is reached.
\<close>

definition numeric_tolerance_verdict :: "pyfloat \<Rightarrow> string \<Rightarrow> string \<Rightarrow> bool option" where
  "numeric_tolerance_verdict eps expected actual =
     (case (py_float expected, py_float actual) of
        (Some x, Some y) \<Rightarrow> Some (py_le (py_round 10 (py_abs (py_sub x y))) eps)
      | _ \<Rightarrow> None)"

text \<open>
  The checker decides by the exit status of its process on the input text, a newline and
  the actual output: status 0 is correct, any other status incorrect.
\<close>

definition checker_verdict :: "world \<Rightarrow> string \<Rightarrow> string \<Rightarrow> string \<Rightarrow> bool option" where
  "checker_verdict w chk input_text actual =
     (case subprocess_run w chk (input_text @ [CHR 0x0A] @ actual) of
        Returns p \<Rightarrow> Some (returncode p = 0)
      | _ \<Rightarrow> None)"

definition exact_verdict :: "bool \<Rightarrow> string \<Rightarrow> string \<Rightarrow> bool" where
  "exact_verdict any_if_empty expected actual =
     ((any_if_empty \<and> expected = []) \<or> expected = actual)"

definition spec_verdict :: "config \<Rightarrow> world \<Rightarrow> string \<Rightarrow> string \<Rightarrow> string \<Rightarrow> bool option" where
  "spec_verdict cfg w input_text expected actual =
     (case result_dist cfg of
        Some eps \<Rightarrow> numeric_tolerance_verdict eps expected actual
      | None \<Rightarrow>
          (case checker cfg of
             Some chk \<Rightarrow> checker_verdict w chk input_text actual
           | None \<Rightarrow> Some (exact_verdict (empty_means_any cfg) expected actual)))"

text \<open>
  Lines 96 to 105 read alone: the expected output with which a case goes on, the empty
  text standing for an absent file; \<open>None\<close> where the case is skipped for the
  absent file or the file cannot be read.
\<close>

definition expected_of :: "config \<Rightarrow> world \<Rightarrow> string set \<Rightarrow> string \<Rightarrow> string option" where
  "expected_of cfg w all_files file =
     (if take (length file - 3) file @ ''.out'' \<notin> all_files
      then (if \<not> empty_means_any cfg \<and> checker cfg = None then None else Some [])
      else map_option strip (readfile w (take (length file - 3) file @ ''.out'')))"

text \<open>
  The values of \<^verbatim>\<open>approx_total\<close> with which the progress percentage of line 94 is
  computed, one for each pass through the loop body, in order.
\<close>

fun loop_denominators :: "config \<Rightarrow> world \<Rightarrow> string set \<Rightarrow> stats \<Rightarrow> string list \<Rightarrow> int list" where
  "loop_denominators cfg w all_files st [] = []"
| "loop_denominators cfg w all_files st (file # files) =
     approx_total st #
     (case run_case cfg w all_files st file of
        (Next, l1, st1) \<Rightarrow> loop_denominators cfg w all_files st1 files
      | (fl, l1, st1) \<Rightarrow> [])"

definition progress_denominators :: "config \<Rightarrow> world \<Rightarrow> int list" where
  "progress_denominators cfg w =
     (case discover cfg w of
        Inl e \<Rightarrow> []
      | Inr (all_files, files0, n0) \<Rightarrow>
          (case order_files cfg w files0 of
             Inl e \<Rightarrow> []
           | Inr files1 \<Rightarrow>
               (case apply_limit cfg files1 n0 of
                  (files, n) \<Rightarrow> loop_denominators cfg w all_files (initial_stats n) files)))"



text \<open>The lines that the report of lines 151 to 163 prints.\<close>

fun summary_line :: "line \<Rightarrow> bool" where
  "summary_line (Done_testing a) = True"
| "summary_line No_valid_tests = True"
| "summary_line (Correct_out_of c n p) = True"
| "summary_line Tests_that_failed = True"
| "summary_line (Name_list ns) = True"
| "summary_line (Went_overtime c n p) = True"
| "summary_line (Times_line ts) = True"
| "summary_line l = False"

text \<open>The progress line of line 93, printed when verbose.\<close>

definition progress_line :: "config \<Rightarrow> stats \<Rightarrow> string \<Rightarrow> pyfloat \<Rightarrow> line list" where
  "progress_line cfg st f pct =
     verbose_print cfg
       (Test_progress (take (length f - 3) f)
          (if extra_verbose cfg
           then '' ('' @ f @ '' & '' @ (take (length f - 3) f @ ''.out'') @ '')'' else [])
          (total_n st) (approx_total st) pct)"

section \<open>Example runs\<close>

text \<open>
  A directory \<^verbatim>\<open>tests\<close> with four cases, the last without an expected output, and
  three commands: \<^verbatim>\<open>app\<close> echoes its input with a CRLF, raises on the input
  \<^verbatim>\<open>boom\<close> and takes a quarter of a second, except on the input 5 (ten microseconds)
  and on the input 7 (two seconds); \<^verbatim>\<open>chk\<close> accepts exactly the payload of 5 and 5 and
  rejects the others with status 3; \<^verbatim>\<open>chk2\<close> accepts the same payload and is
  cancelled by the user while it runs on any other; every other command, such as
  \<^verbatim>\<open>slowchk\<close>, is cancelled while it runs.
\<close>

definition demo_files :: "string \<Rightarrow> string option" where
  "demo_files p =
     (if p = ''tests/a.in'' then Some [CHR ''5'', CHR 0x0A]
      else if p = ''tests/a.out'' then Some ''5''
      else if p = ''tests/b.in'' then Some ''x''
      else if p = ''tests/b.out'' then Some ''y''
      else if p = ''tests/c.in'' then Some ''7''
      else if p = ''tests/c.out'' then Some ''8''
      else if p = ''tests/d.in'' then Some ''boom''
      else None)"

definition demo_shell :: "string \<Rightarrow> string \<Rightarrow> process call" where
  "demo_shell command input =
     (if command = ''app'' then
        (if input = ''boom'' then Raises
         else Returns \<lparr>stdout = input @ [CHR 0x0D, CHR 0x0A], returncode = 0,
                        elapsed = (if input = ''5'' then Finite (1 / 100000)
                                   else if input = ''7'' then Finite 2
                                   else Finite (1 / 4))\<rparr>)
      else if command = ''chk'' then
        Returns \<lparr>stdout = [], returncode = (if input = [CHR ''5'', CHR 0x0A, CHR ''5''] then 0 else 3),
                  elapsed = Finite (1 / 8)\<rparr>
      else if command = ''chk2'' \<and> input = [CHR ''5'', CHR 0x0A, CHR ''5''] then
        Returns \<lparr>stdout = [], returncode = 0, elapsed = Finite (1 / 8)\<rparr>
      else KeyboardInterrupt)"

definition demo_world :: world where
  "demo_world =
     \<lparr>tqdm_enabled = False,
      os_listdir = (\<lambda>d. if d = ''tests''
                         then Some [''b.out'', ''a.in'', ''c.in'', ''a.out'', ''d.in'', ''b.in'', ''c.out'']
                         else None),
      glob_glob = (\<lambda>p. if p = ''tests/*.in''
                        then [''tests/a.in'', ''tests/c.in'', ''tests/d.in'', ''tests/b.in'']
                        else []),
      os_path_exists = (\<lambda>p. demo_files p \<noteq> None),
      os_path_getsize = (\<lambda>p. map_option (\<lambda>t. int (length t)) (demo_files p)),
      random_shuffle = rev,
      file_read = demo_files,
      subprocess_run = demo_shell\<rparr>"

text \<open>The parameters of the command line without options: natural order, exact match.\<close>

definition demo_config :: config where
  "demo_config =
     \<lparr>app = ''app'', directory = ''tests'', checker = None, verbose = False,
      extra_verbose = False, result_dist = None, one_file = None, limit = None,
      shuffle = False, do_sort = False, natural_sort = True, empty_means_any = False,
      timer = False\<rparr>"

text \<open>The existing files of the example directory, as line 61 collects them.\<close>

definition demo_all_files :: "string set" where
  "demo_all_files =
     set (map (os_path_join ''tests'')
            [''b.out'', ''a.in'', ''c.in'', ''a.out'', ''d.in'', ''b.in'', ''c.out''])"

section \<open>Steps of the loop\<close>

lemma percent_Some: "b \<noteq> 0 \<Longrightarrow> \<exists>p. percent a b = Some p"
  by (simp add: percent_def py_truediv_def)

text \<open>The loop body of a case whose input is read and whose expected output is settled.\<close>

lemma run_case_expected:
  assumes "percent (int (total_n st)) (approx_total st) = Some pct"
    and "readfile w f = Some intext"
    and "expected_of cfg w af f = Some outdata"
  shows "run_case cfg w af st f =
     (case after_discovery cfg w st (take (length f - 3) f) f (strip intext) outdata of
        (fl, l1, st') \<Rightarrow> (fl, progress_line cfg st f pct @ l1, st'))"
  using assms
  by (auto simp: run_case_def expected_of_def progress_line_def Let_def
      split: if_splits option.splits)

lemma after_discovery_returns:
  assumes "indata \<noteq> []" and "call_with_io_timed w (app cfg) indata = Returns (out, t)"
  shows "after_discovery cfg w st name infile indata outdata =
     (case after_invocation cfg w st name indata outdata (strip out) t of
        (fl, l2, st') \<Rightarrow>
          (fl,
           (extra_verbose_print cfg (Input_text indata)
            @ extra_verbose_print cfg
                (Expected_text (if outdata \<noteq> [] then outdata else ''[[None given]]''))) @ l2,
           st'))"
  using assms by (simp add: after_discovery_def Let_def)

lemma after_discovery_cancelled:
  assumes "indata \<noteq> []" and "call_with_io_timed w (app cfg) indata = KeyboardInterrupt"
  shows "after_discovery cfg w st name infile indata outdata =
     (Stop Cancelled,
      extra_verbose_print cfg (Input_text indata)
      @ extra_verbose_print cfg
          (Expected_text (if outdata \<noteq> [] then outdata else ''[[None given]]'')),
      st)"
  using assms by (simp add: after_discovery_def Let_def)

text \<open>The loop body of a case that reaches the evaluation ends as the evaluation does.\<close>

lemma run_case_evaluated:
  assumes "approx_total st \<noteq> 0"
    and "readfile w f = Some intext" and "strip intext \<noteq> []"
    and "expected_of cfg w af f = Some outdata"
    and "call_with_io_timed w (app cfg) (strip intext) = Returns (out, t)"
  shows "fst (run_case cfg w af st f)
           = fst (after_invocation cfg w st (take (length f - 3) f) (strip intext) outdata
                    (strip out) t)
       \<and> snd (snd (run_case cfg w af st f))
           = snd (snd (after_invocation cfg w st (take (length f - 3) f) (strip intext) outdata
                         (strip out) t))"
proof -
  from assms(1) obtain pct where p: "percent (int (total_n st)) (approx_total st) = Some pct"
    using percent_Some[of "approx_total st" "int (total_n st)"] by auto
  show ?thesis
    by (simp add: run_case_expected[OF p assms(2,4)] after_discovery_returns[OF assms(3,5)]
        split: prod.splits)
qed

lemma run_case_cancelled_at_subject:
  assumes "approx_total st \<noteq> 0"
    and "readfile w f = Some intext" and "strip intext \<noteq> []"
    and "expected_of cfg w af f = Some outdata"
    and "call_with_io_timed w (app cfg) (strip intext) = KeyboardInterrupt"
  shows "fst (run_case cfg w af st f) = Stop Cancelled \<and> snd (snd (run_case cfg w af st f)) = st"
proof -
  from assms(1) obtain pct where p: "percent (int (total_n st)) (approx_total st) = Some pct"
    using percent_Some[of "approx_total st" "int (total_n st)"] by auto
  show ?thesis
    by (simp add: run_case_expected[OF p assms(2,4)] after_discovery_cancelled[OF assms(3,5)])
qed

lemma run_cases_append:
  "run_cases cfg w af st0 pre = (Next, l0, st)
   \<Longrightarrow> run_cases cfg w af st0 (pre @ rest)
       = (case run_cases cfg w af st rest of (fl, l, st') \<Rightarrow> (fl, l0 @ l, st'))"
proof (induction pre arbitrary: st0 l0)
  case Nil
  then show ?case by (auto split: prod.splits)
next
  case (Cons f pre)
  obtain f1 l1 st1 where r: "run_case cfg w af st0 f = (f1, l1, st1)"
    by (cases "run_case cfg w af st0 f") auto
  show ?case
  proof (cases f1)
    case Next
    obtain f2 l2 st2 where r2: "run_cases cfg w af st1 pre = (f2, l2, st2)"
      by (cases "run_cases cfg w af st1 pre") auto
    with Cons.prems r Next have e: "f2 = Next" "l0 = l1 @ l2" "st2 = st" by auto
    from Cons.IH[of st1 l2] r2 e
    have "run_cases cfg w af st1 (pre @ rest)
       = (case run_cases cfg w af st rest of (fl, l, st') \<Rightarrow> (fl, l2 @ l, st'))"
      by simp
    with r Next e show ?thesis by (auto split: prod.splits)
  next
    case (Stop s)
    with Cons.prems r show ?thesis by simp
  qed
qed

text \<open>A case that stops after a completed prefix ends the loop, with what it leaves.\<close>

lemma run_cases_prefix_stop:
  assumes "run_cases cfg w af st0 pre = (Next, l0, st)"
    and "fst (run_case cfg w af st f) = Stop s"
  shows "run_cases cfg w af st0 (pre @ f # fs)
           = (Stop s, l0 @ fst (snd (run_case cfg w af st f)), snd (snd (run_case cfg w af st f)))"
proof -
  obtain f1 l1 st1 where r: "run_case cfg w af st f = (f1, l1, st1)"
    by (cases "run_case cfg w af st f") auto
  with assms(2) have "run_cases cfg w af st (f # fs) = (Stop s, l1, st1)" by simp
  with run_cases_append[OF assms(1), of "f # fs"] r show ?thesis by simp
qed

lemma testing_loop_of_parts:
  assumes "discover cfg w = Inr (af, files0, n0)"
    and "order_files cfg w files0 = Inr files1"
    and "apply_limit cfg files1 n0 = (files, n)"
  shows "testing_loop cfg w = Inr (run_cases cfg w af (initial_stats n) files)"
  using assms by (simp add: testing_loop_def)

text \<open>The loop prints no line of the report.\<close>

lemma after_invocation_no_summary:
  "after_invocation cfg w st name indata outdata out t = (fl, l, st')
   \<Longrightarrow> x \<in> set l \<Longrightarrow> \<not> summary_line x"
  by (auto simp: after_invocation_def evaluate_def Let_def verbose_print_def
      extra_verbose_print_def split: sum.splits prod.splits if_splits option.splits call.splits)

lemma after_discovery_no_summary:
  "after_discovery cfg w st name infile indata outdata = (fl, l, st')
   \<Longrightarrow> x \<in> set l \<Longrightarrow> \<not> summary_line x"
  by (auto simp: after_discovery_def Let_def bar_break_def extra_verbose_print_def
      split: if_splits call.splits prod.splits dest: after_invocation_no_summary)

lemma run_case_no_summary:
  "run_case cfg w af st f = (fl, l, st') \<Longrightarrow> x \<in> set l \<Longrightarrow> \<not> summary_line x"
  by (auto simp: run_case_def Let_def verbose_print_def bar_break_def
      split: if_splits option.splits prod.splits dest: after_discovery_no_summary)

lemma run_cases_no_summary:
  "run_cases cfg w af st fs = (fl, l, st') \<Longrightarrow> x \<in> set l \<Longrightarrow> \<not> summary_line x"
proof (induction fs arbitrary: st fl l st')
  case Nil
  then show ?case by simp
next
  case (Cons f fs)
  obtain f1 l1 st1 where r: "run_case cfg w af st f = (f1, l1, st1)"
    by (cases "run_case cfg w af st f") auto
  note n1 = run_case_no_summary[OF r]
  show ?case
  proof (cases f1)
    case Next
    obtain f2 l2 st2 where r2: "run_cases cfg w af st1 fs = (f2, l2, st2)"
      by (cases "run_cases cfg w af st1 fs") auto
    from Cons.prems r Next r2 have "x \<in> set l1 \<or> x \<in> set l2" by auto
    with Cons.IH[OF r2] n1 show ?thesis by auto
  next
    case (Stop s)
    with Cons.prems r n1 show ?thesis by auto
  qed
qed

lemma testing_loop_no_summary:
  assumes "testing_loop cfg w = Inr (fl, l, st)" and "x \<in> set l"
  shows "\<not> summary_line x"
proof -
  from assms(1) obtain af fs n where "run_cases cfg w af (initial_stats n) fs = (fl, l, st)"
    by (auto simp: testing_loop_def split: sum.splits prod.splits)
  from run_cases_no_summary[OF this assms(2)] show ?thesis .
qed

section \<open>The counting invariant\<close>

lemma after_invocation_counts:
  assumes "after_invocation cfg w st name indata outdata out t = (Next, l, st')"
  shows "total_n st' = total_n st + 1 \<and>
         (correct st' = correct st + 1 \<and> wrong st' = wrong st \<or>
          correct st' = correct st \<and> wrong st' = wrong st @ [name])"
  using assms
  by (auto simp: after_invocation_def Let_def split: sum.splits prod.splits if_splits)

lemma after_invocation_stop:
  assumes "after_invocation cfg w st name indata outdata out t = (Stop s, l, st')"
  shows "total_n st' = total_n st \<and> correct st' = correct st \<and> wrong st' = wrong st"
  using assms
  by (auto simp: after_invocation_def Let_def split: sum.splits prod.splits if_splits)

lemma after_invocation_counted:
  assumes "after_invocation cfg w st name indata outdata out t = (fl, l, st')"
    and "total_n st = correct st + length (wrong st)"
  shows "total_n st' = correct st' + length (wrong st')"
proof (cases fl)
  case Next
  with assms after_invocation_counts[of cfg w st name indata outdata out t l st']
  show ?thesis by auto
next
  case (Stop s)
  with assms after_invocation_stop[of cfg w st name indata outdata out t s l st']
  show ?thesis by auto
qed

lemma after_discovery_counted:
  assumes "after_discovery cfg w st name infile indata outdata = (fl, l, st')"
    and "total_n st = correct st + length (wrong st)"
  shows "total_n st' = correct st' + length (wrong st')"
  using assms
  by (auto simp: after_discovery_def Let_def
      split: if_splits call.splits prod.splits dest: after_invocation_counted)

lemma run_case_counted:
  assumes "run_case cfg w af st f = (fl, l, st')"
    and "total_n st = correct st + length (wrong st)"
  shows "total_n st' = correct st' + length (wrong st')"
  using assms
  by (auto simp: run_case_def Let_def
      split: if_splits option.splits prod.splits dest: after_discovery_counted)

text \<open>The invariant goes through the loop, however the loop ends.\<close>

lemma run_cases_counted:
  "run_cases cfg w af st fs = (fl, l, st') \<Longrightarrow> total_n st = correct st + length (wrong st)
   \<Longrightarrow> total_n st' = correct st' + length (wrong st')"
proof (induction fs arbitrary: st l fl st')
  case Nil
  then show ?case by simp
next
  case (Cons f fs)
  obtain f1 l1 st1 where r: "run_case cfg w af st f = (f1, l1, st1)"
    by (cases "run_case cfg w af st f") auto
  with Cons.prems have c1: "total_n st1 = correct st1 + length (wrong st1)"
    by (auto dest: run_case_counted)
  show ?case
  proof (cases f1)
    case Next
    obtain f2 l2 st2 where r2: "run_cases cfg w af st1 fs = (f2, l2, st2)"
      by (cases "run_cases cfg w af st1 fs") auto
    with Cons.prems r Next have "st' = st2" by simp
    with Cons.IH[OF r2 c1] show ?thesis by simp
  next
    case (Stop s)
    with Cons.prems r have "st' = st1" by simp
    with c1 show ?thesis by simp
  qed
qed

lemma testing_loop_counted:
  assumes "testing_loop cfg w = Inr (fl, l, st)"
  shows "total_n st = correct st + length (wrong st)"
proof -
  from assms obtain af fs n where "run_cases cfg w af (initial_stats n) fs = (fl, l, st)"
    by (auto simp: testing_loop_def split: sum.splits prod.splits)
  then show ?thesis
    by (rule run_cases_counted) (simp add: initial_stats_def)
qed

lemma raising_invocation_skips:
  assumes "indata \<noteq> []" and "call_with_io_timed w (app cfg) indata = Raises"
  shows "after_discovery cfg w st name infile indata outdata =
           (Next,
            extra_verbose_print cfg (Input_text indata)
            @ extra_verbose_print cfg
                (Expected_text (if outdata \<noteq> [] then outdata else ''[[None given]]''))
            @ bar_break cfg w @ [Error_exception name (app cfg)],
            st)"
  using assms by (simp add: after_discovery_def)

text \<open>
  Claim C1.  When the loop of a run completes (it is not cancelled and no exception
  leaves it), the statistics satisfy \<open>total = correct + length wrong\<close>.  A case whose
  invocation returned and whose evaluation gives a verdict adds one to \<open>total\<close> and
  either adds one to \<open>correct\<close> or appends its name to \<open>wrong\<close>; a case whose
  invocation raises an exception leaves the statistics as they were.
\<close>

theorem total_is_correct_plus_failing:
  "(testing_loop cfg w = Inr (Next, l, st) \<longrightarrow> total_n st = correct st + length (wrong st))
   \<and> (after_invocation cfg w st0 name indata outdata out t = (Next, l1, st1) \<longrightarrow>
        total_n st1 = total_n st0 + 1
        \<and> (correct st1 = correct st0 + 1 \<and> wrong st1 = wrong st0
           \<or> correct st1 = correct st0 \<and> wrong st1 = wrong st0 @ [name]))
   \<and> (indata \<noteq> [] \<and> call_with_io_timed w (app cfg) indata = Raises \<longrightarrow>
        (\<exists>l2. after_discovery cfg w st0 name infile indata outdata = (Next, l2, st0)))"
  using testing_loop_counted[of cfg w Next l st]
    after_invocation_counts[of cfg w st0 name indata outdata out t l1 st1]
    raising_invocation_skips[of indata w cfg st0 name infile outdata]
  by blast

text \<open>
  The example directory with empty-means-any: one case is right, two are wrong, and the
  invocation of the fourth raises.
\<close>

theorem total_is_correct_plus_failing_witness:
  "testing_loop (demo_config\<lparr>empty_means_any := True\<rparr>) demo_world
     = Inr (Next, [Error_exception ''tests/d'' ''app''],
            \<lparr>approx_total = 4, total_n = 3, correct = 1, overtime_count = 1,
              wrong = [''tests/b'', ''tests/c''], overtime = [''tests/c''], times_l = []\<rparr>)
   \<and> (3::nat) = 1 + length [''tests/b'', ''tests/c'']
   \<and> after_invocation demo_config demo_world (initial_stats 4) ''tests/b'' ''x'' ''y'' ''x''
        (Finite (1 / 4))
      = (Next, [], (initial_stats 4)\<lparr>wrong := [''tests/b''], total_n := 1\<rparr>)
   \<and> call_with_io_timed demo_world (app demo_config) ''boom'' = Raises
   \<and> (\<exists>l2. after_discovery demo_config demo_world (initial_stats 4) ''tests/d'' ''tests/d.in''
              ''boom'' []
            = (Next, l2, initial_stats 4))"
proof -
  have a: "testing_loop (demo_config\<lparr>empty_means_any := True\<rparr>) demo_world
     = Inr (Next, [Error_exception ''tests/d'' ''app''],
            \<lparr>approx_total = 4, total_n = 3, correct = 1, overtime_count = 1,
              wrong = [''tests/b'', ''tests/c''], overtime = [''tests/c''], times_l = []\<rparr>)"
    by code_simp
  have b: "after_invocation demo_config demo_world (initial_stats 4) ''tests/b'' ''x'' ''y'' ''x''
        (Finite (1 / 4))
      = (Next, [], (initial_stats 4)\<lparr>wrong := [''tests/b''], total_n := 1\<rparr>)"
    by code_simp
  have c: "''boom'' \<noteq> [] \<and> call_with_io_timed demo_world (app demo_config) ''boom'' = Raises"
    by code_simp
  note t1 = total_is_correct_plus_failing[where cfg = "demo_config\<lparr>empty_means_any := True\<rparr>"
      and w = demo_world and l = "[Error_exception ''tests/d'' ''app'']"
      and st = "\<lparr>approx_total = 4, total_n = 3, correct = 1, overtime_count = 1,
              wrong = [''tests/b'', ''tests/c''], overtime = [''tests/c''], times_l = []\<rparr>"]
  note t2 = total_is_correct_plus_failing[where cfg = demo_config and w = demo_world
      and indata = "''boom''" and ?st0.0 = "initial_stats 4" and name = "''tests/d''"
      and infile = "''tests/d.in''" and outdata = "[]"]
  from t1 a have e: "(3::nat) = 1 + length [''tests/b'', ''tests/c'']" by simp
  from t2 c have d: "\<exists>l2. after_discovery demo_config demo_world (initial_stats 4) ''tests/d''
      ''tests/d.in'' ''boom'' [] = (Next, l2, initial_stats 4)"
    by blast
  from a b c d e show ?thesis by simp
qed

section \<open>A missing expected-output file\<close>

lemma after_invocation_no_missing_out:
  "after_invocation cfg w st name indata outdata out t = (fl, l, st')
   \<Longrightarrow> Error_missing_out f \<notin> set l"
  by (auto simp: after_invocation_def evaluate_def Let_def verbose_print_def
      extra_verbose_print_def split: sum.splits prod.splits if_splits option.splits call.splits)

lemma after_discovery_no_missing_out:
  "after_discovery cfg w st name infile indata outdata = (fl, l, st')
   \<Longrightarrow> Error_missing_out f \<notin> set l"
  by (auto simp: after_discovery_def Let_def bar_break_def extra_verbose_print_def
      split: if_splits call.splits prod.splits dest: after_invocation_no_missing_out)

text \<open>The loop body for a file whose expected output is absent, once the input is read.\<close>

lemma run_case_missing_out:
  assumes "take (length f - 3) f @ ''.out'' \<notin> af"
    and "percent (int (total_n st)) (approx_total st) = Some pct"
    and "readfile w f = Some intext"
  shows "run_case cfg w af st f =
     (if \<not> empty_means_any cfg \<and> checker cfg = None
      then (Next,
            verbose_print cfg
              (Test_progress (take (length f - 3) f)
                 (if extra_verbose cfg
                  then '' ('' @ f @ '' & '' @ (take (length f - 3) f @ ''.out'') @ '')'' else [])
                 (total_n st) (approx_total st) pct)
            @ bar_break cfg w @ [Error_missing_out f],
            st\<lparr>approx_total := approx_total st - 1\<rparr>)
      else (case after_discovery cfg w st (take (length f - 3) f) f (strip intext) [] of
              (fl, l1, st') \<Rightarrow>
                (fl,
                 verbose_print cfg
                   (Test_progress (take (length f - 3) f)
                      (if extra_verbose cfg
                       then '' ('' @ f @ '' & '' @ (take (length f - 3) f @ ''.out'') @ '')'' else [])
                      (total_n st) (approx_total st) pct) @ l1,
                 st')))"
  using assms by (simp add: run_case_def Let_def)

text \<open>
  Claim C2, as the code has it.  For a case whose expected-output file is absent (and
  whose input file can be read), the case is reported as an error, skipped and taken out
  of the pool if and only if empty-means-any is disabled and no checker is configured;
  the numeric tolerance is not consulted.  In every other configuration the case goes
  on with an empty expected output.
\<close>

theorem missing_out_is_error_iff_strict:
  assumes "take (length f - 3) f @ ''.out'' \<notin> af"
    and "percent (int (total_n st)) (approx_total st) = Some pct"
    and "readfile w f = Some intext"
  shows "(skipped_for_missing_out cfg w af st f
            \<longleftrightarrow> \<not> empty_means_any cfg \<and> checker cfg = None)
         \<and> (\<not> (\<not> empty_means_any cfg \<and> checker cfg = None) \<longrightarrow>
              (\<exists>l0. run_case cfg w af st f =
                 (case after_discovery cfg w st (take (length f - 3) f) f (strip intext) [] of
                    (fl, l1, st') \<Rightarrow> (fl, l0 @ l1, st'))))"
proof -
  note rc = run_case_missing_out[OF assms, of cfg]
  show ?thesis
  proof (cases "\<not> empty_means_any cfg \<and> checker cfg = None")
    case True
    with rc show ?thesis by (simp add: skipped_for_missing_out_def)
  next
    case False
    obtain fl l1 st' where ad:
      "after_discovery cfg w st (take (length f - 3) f) f (strip intext) [] = (fl, l1, st')"
      by (cases "after_discovery cfg w st (take (length f - 3) f) f (strip intext) []") auto
    from after_discovery_no_missing_out[OF ad] have "Error_missing_out f \<notin> set l1" .
    with False rc ad have "\<not> skipped_for_missing_out cfg w af st f"
      by (auto simp: skipped_for_missing_out_def verbose_print_def)
    moreover from False rc have "\<exists>l0. run_case cfg w af st f =
                 (case after_discovery cfg w st (take (length f - 3) f) f (strip intext) [] of
                    (fl, l1, st') \<Rightarrow> (fl, l0 @ l1, st'))"
      by auto
    ultimately show ?thesis using False by blast
  qed
qed

text \<open>
  The case \<^verbatim>\<open>tests/d\<close> of the example has no expected output: it is skipped under the
  strict settings, and runs with an empty expected output under empty-means-any.
\<close>

theorem missing_out_is_error_iff_strict_witness:
  "take (length ''tests/d.in'' - 3) ''tests/d.in'' @ ''.out'' \<notin> demo_all_files
   \<and> percent (int (total_n (initial_stats 4))) (approx_total (initial_stats 4)) = Some (Finite 0)
   \<and> readfile demo_world ''tests/d.in'' = Some ''boom''
   \<and> skipped_for_missing_out demo_config demo_world demo_all_files (initial_stats 4) ''tests/d.in''
   \<and> \<not> skipped_for_missing_out (demo_config\<lparr>empty_means_any := True\<rparr>) demo_world
          demo_all_files (initial_stats 4) ''tests/d.in''
   \<and> (\<exists>l0. run_case (demo_config\<lparr>empty_means_any := True\<rparr>) demo_world demo_all_files
              (initial_stats 4) ''tests/d.in''
            = (case after_discovery (demo_config\<lparr>empty_means_any := True\<rparr>) demo_world
                      (initial_stats 4) (take (length ''tests/d.in'' - 3) ''tests/d.in'')
                      ''tests/d.in'' (strip ''boom'') [] of
                 (fl, l1, st') \<Rightarrow> (fl, l0 @ l1, st')))"
proof -
  have h1: "take (length ''tests/d.in'' - 3) ''tests/d.in'' @ ''.out'' \<notin> demo_all_files"
    by code_simp
  have h2: "percent (int (total_n (initial_stats 4))) (approx_total (initial_stats 4))
              = Some (Finite 0)"
    by code_simp
  have h3: "readfile demo_world ''tests/d.in'' = Some ''boom''"
    by code_simp
  have c1: "\<not> empty_means_any demo_config \<and> checker demo_config = None"
    by code_simp
  have c2: "empty_means_any (demo_config\<lparr>empty_means_any := True\<rparr>)"
    by simp
  from missing_out_is_error_iff_strict[OF h1 h2 h3, of demo_config] c1
  have s1: "skipped_for_missing_out demo_config demo_world demo_all_files (initial_stats 4)
              ''tests/d.in''"
    by blast
  from missing_out_is_error_iff_strict[OF h1 h2 h3, of "demo_config\<lparr>empty_means_any := True\<rparr>"] c2
  have s2: "\<not> skipped_for_missing_out (demo_config\<lparr>empty_means_any := True\<rparr>) demo_world
          demo_all_files (initial_stats 4) ''tests/d.in''
     \<and> (\<exists>l0. run_case (demo_config\<lparr>empty_means_any := True\<rparr>) demo_world demo_all_files
              (initial_stats 4) ''tests/d.in''
            = (case after_discovery (demo_config\<lparr>empty_means_any := True\<rparr>) demo_world
                      (initial_stats 4) (take (length ''tests/d.in'' - 3) ''tests/d.in'')
                      ''tests/d.in'' (strip ''boom'') [] of
                 (fl, l1, st') \<Rightarrow> (fl, l0 @ l1, st')))"
    by blast
  from h1 h2 h3 s1 s2 show ?thesis by blast
qed

text \<open>
  Against the claim as worded: with a numeric tolerance, empty-means-any disabled and no
  checker, the case without expected output is an error and is skipped, although the
  claim excludes every configuration with a tolerance.
\<close>

theorem missing_out_with_tolerance_counterexample:
  "''tests/d.out'' \<notin> demo_all_files
   \<and> \<not> (skipped_for_missing_out (demo_config\<lparr>result_dist := Some (Finite 0)\<rparr>) demo_world
          demo_all_files (initial_stats 4) ''tests/d.in''
        \<longleftrightarrow> \<not> empty_means_any (demo_config\<lparr>result_dist := Some (Finite 0)\<rparr>)
            \<and> checker (demo_config\<lparr>result_dist := Some (Finite 0)\<rparr>) = None
            \<and> result_dist (demo_config\<lparr>result_dist := Some (Finite 0)\<rparr>) = None)"
  by code_simp

section \<open>The numeric tolerance\<close>

lemma evaluate_numeric:
  assumes "result_dist cfg = Some eps"
  shows "evaluate cfg w indata outdata out =
     (case py_float outdata of
        None \<Rightarrow> Inl (Raise ValueError)
      | Some x \<Rightarrow>
          (case py_float out of
             None \<Rightarrow> Inl (Raise ValueError)
           | Some y \<Rightarrow> Inr (py_le (py_round 10 (py_abs (py_sub x y))) eps, outdata, [])))"
  using assms by (simp add: evaluate_def)

lemma evaluate_parse_failure:
  assumes "result_dist cfg = Some eps" and "py_float outdata = None \<or> py_float out = None"
  shows "evaluate cfg w indata outdata out = Inl (Raise ValueError)"
  using assms by (auto simp: evaluate_numeric split: option.splits)

lemma after_invocation_parse_failure:
  assumes "result_dist cfg = Some eps" and "py_float outdata = None \<or> py_float out = None"
  shows "\<exists>l st'. after_invocation cfg w st name indata outdata out t
                   = (Stop (Raise ValueError), l, st')
                 \<and> total_n st' = total_n st \<and> correct st' = correct st \<and> wrong st' = wrong st"
  using evaluate_parse_failure[OF assms, of w indata]
  by (simp add: after_invocation_def Let_def)

text \<open>A case that stops ends the loop: the files after it are not looked at.\<close>

lemma run_cases_stop:
  assumes "run_case cfg w af st f = (Stop s, l, st')"
  shows "run_cases cfg w af st (f # fs) = (Stop s, l, st')"
  using assms by simp

lemma main_raise:
  assumes "testing_loop cfg w = Inr (Stop (Raise e), l, st)"
  shows "main cfg w = (l, Inl e)"
  using assms by (simp add: main_def)

text \<open>The failure seen from the loop body: the case stops the loop and counts nowhere.\<close>

lemma run_case_parse_failure:
  assumes "result_dist cfg = Some eps"
    and "approx_total st \<noteq> 0"
    and "readfile w f = Some intext" and "strip intext \<noteq> []"
    and "expected_of cfg w af f = Some outdata"
    and "call_with_io_timed w (app cfg) (strip intext) = Returns (out, t)"
    and "py_float outdata = None \<or> py_float (strip out) = None"
  shows "fst (run_case cfg w af st f) = Stop (Raise ValueError)
       \<and> total_n (snd (snd (run_case cfg w af st f))) = total_n st
       \<and> correct (snd (snd (run_case cfg w af st f))) = correct st
       \<and> wrong (snd (snd (run_case cfg w af st f))) = wrong st"
proof -
  from after_invocation_parse_failure[OF assms(1,7), of w st "take (length f - 3) f"
      "strip intext" t]
  obtain l st' where a: "after_invocation cfg w st (take (length f - 3) f) (strip intext)
      outdata (strip out) t = (Stop (Raise ValueError), l, st')"
    and c: "total_n st' = total_n st" "correct st' = correct st" "wrong st' = wrong st"
    by blast
  from run_case_evaluated[OF assms(2-6)] a c show ?thesis by simp
qed

text \<open>
  Claim C3, as the code has it.  In numeric-tolerance mode, take a case that reaches the
  evaluation (the input is read and not empty, the expected output is settled, the
  invocation returns) and whose expected text or actual output is not a number.
  \<^verbatim>\<open>float\<close> raises \<^verbatim>\<open>ValueError\<close> and no handler catches it: the loop body ends
  with the exception, and the case is counted neither in \<open>total\<close> nor as correct nor
  as failing.  After any completed cases before it the loop ends there, whatever files
  follow, and \<^verbatim>\<open>main\<close> ends with the exception after the lines printed so far, none
  of which is a line of the summary.
\<close>

theorem parse_failure_aborts_run:
  assumes "result_dist cfg = Some eps"
    and "approx_total st \<noteq> 0"
    and "readfile w f = Some intext" and "strip intext \<noteq> []"
    and "expected_of cfg w af f = Some outdata"
    and "call_with_io_timed w (app cfg) (strip intext) = Returns (out, t)"
    and "py_float outdata = None \<or> py_float (strip out) = None"
  shows "fst (run_case cfg w af st f) = Stop (Raise ValueError)
       \<and> total_n (snd (snd (run_case cfg w af st f))) = total_n st
       \<and> correct (snd (snd (run_case cfg w af st f))) = correct st
       \<and> wrong (snd (snd (run_case cfg w af st f))) = wrong st
       \<and> (run_cases cfg w af st0 pre = (Next, l0, st) \<longrightarrow>
            run_cases cfg w af st0 (pre @ f # fs)
              = (Stop (Raise ValueError), l0 @ fst (snd (run_case cfg w af st f)),
                 snd (snd (run_case cfg w af st f))))
       \<and> (discover cfg w = Inr (af, files0, n0) \<and> order_files cfg w files0 = Inr files1
            \<and> apply_limit cfg files1 n0 = (pre @ f # fs, n)
            \<and> run_cases cfg w af (initial_stats n) pre = (Next, l0, st) \<longrightarrow>
            main cfg w = (l0 @ fst (snd (run_case cfg w af st f)), Inl ValueError)
            \<and> (\<forall>x \<in> set (fst (main cfg w)). \<not> summary_line x))"
proof -
  note rc = run_case_parse_failure[OF assms]
  from rc have stop: "fst (run_case cfg w af st f) = Stop (Raise ValueError)" by simp
  have a: "run_cases cfg w af st0 (pre @ f # fs)
              = (Stop (Raise ValueError), l0 @ fst (snd (run_case cfg w af st f)),
                 snd (snd (run_case cfg w af st f)))"
    if "run_cases cfg w af st0 pre = (Next, l0, st)" for st0 l0
    using run_cases_prefix_stop[OF that stop] .
  have b: "main cfg w = (l0 @ fst (snd (run_case cfg w af st f)), Inl ValueError)
            \<and> (\<forall>x \<in> set (fst (main cfg w)). \<not> summary_line x)"
    if d: "discover cfg w = Inr (af, files0, n0)" and o: "order_files cfg w files0 = Inr files1"
      and l: "apply_limit cfg files1 n0 = (pre @ f # fs, n)"
      and p: "run_cases cfg w af (initial_stats n) pre = (Next, l0, st)"
  proof -
    from testing_loop_of_parts[OF d o l] a[OF p]
    have t: "testing_loop cfg w = Inr (Stop (Raise ValueError),
        l0 @ fst (snd (run_case cfg w af st f)), snd (snd (run_case cfg w af st f)))"
      by simp
    from main_raise[OF t] testing_loop_no_summary[OF t] show ?thesis by simp
  qed
  from rc a b show ?thesis by blast
qed

text \<open>
  The example directory with tolerance 0: the case \<^verbatim>\<open>tests/a\<close> is right, the case
  \<^verbatim>\<open>tests/b\<close> expects \<^verbatim>\<open>y\<close> and gets \<^verbatim>\<open>x\<close>, two cases follow.
\<close>

theorem parse_failure_aborts_run_witness:
  "result_dist (demo_config\<lparr>result_dist := Some (Finite 0)\<rparr>) = Some (Finite 0)
   \<and> approx_total ((initial_stats 4)\<lparr>correct := 1, total_n := 1\<rparr>) \<noteq> 0
   \<and> readfile demo_world ''tests/b.in'' = Some ''x'' \<and> strip ''x'' \<noteq> []
   \<and> expected_of (demo_config\<lparr>result_dist := Some (Finite 0)\<rparr>) demo_world demo_all_files
        ''tests/b.in'' = Some ''y''
   \<and> call_with_io_timed demo_world (app (demo_config\<lparr>result_dist := Some (Finite 0)\<rparr>))
        (strip ''x'') = Returns ([CHR ''x'', CHR 0x0A], Finite (1 / 4))
   \<and> py_float ''y'' = None
   \<and> discover (demo_config\<lparr>result_dist := Some (Finite 0)\<rparr>) demo_world
      = Inr (demo_all_files, [''tests/a.in'', ''tests/c.in'', ''tests/d.in'', ''tests/b.in''], 4)
   \<and> order_files (demo_config\<lparr>result_dist := Some (Finite 0)\<rparr>) demo_world
        [''tests/a.in'', ''tests/c.in'', ''tests/d.in'', ''tests/b.in'']
      = Inr [''tests/a.in'', ''tests/b.in'', ''tests/c.in'', ''tests/d.in'']
   \<and> apply_limit (demo_config\<lparr>result_dist := Some (Finite 0)\<rparr>)
        [''tests/a.in'', ''tests/b.in'', ''tests/c.in'', ''tests/d.in''] 4
      = ([''tests/a.in''] @ ''tests/b.in'' # [''tests/c.in'', ''tests/d.in''], 4)
   \<and> run_cases (demo_config\<lparr>result_dist := Some (Finite 0)\<rparr>) demo_world demo_all_files
        (initial_stats 4) [''tests/a.in'']
      = (Next, [], (initial_stats 4)\<lparr>correct := 1, total_n := 1\<rparr>)
   \<and> run_case (demo_config\<lparr>result_dist := Some (Finite 0)\<rparr>) demo_world demo_all_files
        ((initial_stats 4)\<lparr>correct := 1, total_n := 1\<rparr>) ''tests/b.in''
      = (Stop (Raise ValueError), [], (initial_stats 4)\<lparr>correct := 1, total_n := 1\<rparr>)
   \<and> run_cases (demo_config\<lparr>result_dist := Some (Finite 0)\<rparr>) demo_world demo_all_files
        (initial_stats 4) [''tests/a.in'', ''tests/b.in'', ''tests/c.in'', ''tests/d.in'']
      = (Stop (Raise ValueError), [], (initial_stats 4)\<lparr>correct := 1, total_n := 1\<rparr>)
   \<and> main (demo_config\<lparr>result_dist := Some (Finite 0)\<rparr>) demo_world = ([], Inl ValueError)"
proof -
  let ?c = "demo_config\<lparr>result_dist := Some (Finite 0)\<rparr>"
  let ?st = "(initial_stats 4)\<lparr>correct := 1, total_n := 1\<rparr>"
  have h1: "result_dist ?c = Some (Finite 0)"
    by simp
  have h2: "approx_total ?st \<noteq> 0"
    by (simp add: initial_stats_def)
  have h3: "readfile demo_world ''tests/b.in'' = Some ''x''"
    by code_simp
  have h4: "strip ''x'' \<noteq> []"
    by code_simp
  have h5: "expected_of ?c demo_world demo_all_files ''tests/b.in'' = Some ''y''"
    by code_simp
  have h6: "call_with_io_timed demo_world (app ?c) (strip ''x'')
      = Returns ([CHR ''x'', CHR 0x0A], Finite (1 / 4))"
    by code_simp
  have h7: "py_float ''y'' = None"
    by code_simp
  then have h7': "py_float ''y'' = None \<or> py_float (strip [CHR ''x'', CHR 0x0A]) = None"
    by simp
  have d: "discover ?c demo_world
      = Inr (demo_all_files, [''tests/a.in'', ''tests/c.in'', ''tests/d.in'', ''tests/b.in''], 4)"
    by code_simp
  have o: "order_files ?c demo_world
        [''tests/a.in'', ''tests/c.in'', ''tests/d.in'', ''tests/b.in'']
      = Inr [''tests/a.in'', ''tests/b.in'', ''tests/c.in'', ''tests/d.in'']"
    by code_simp
  have l: "apply_limit ?c [''tests/a.in'', ''tests/b.in'', ''tests/c.in'', ''tests/d.in''] 4
      = ([''tests/a.in''] @ ''tests/b.in'' # [''tests/c.in'', ''tests/d.in''], 4)"
    by code_simp
  have p: "run_cases ?c demo_world demo_all_files (initial_stats 4) [''tests/a.in'']
      = (Next, [], ?st)"
    by code_simp
  have r: "run_case ?c demo_world demo_all_files ?st ''tests/b.in''
      = (Stop (Raise ValueError), [], ?st)"
    by code_simp
  note t = parse_failure_aborts_run[OF h1 h2 h3 h4 h5 h6 h7',
      where ?st0.0 = "initial_stats 4" and pre = "[''tests/a.in'']" and ?l0.0 = "[]"
        and fs = "[''tests/c.in'', ''tests/d.in'']"
        and ?files0.0 = "[''tests/a.in'', ''tests/c.in'', ''tests/d.in'', ''tests/b.in'']"
        and ?n0.0 = 4 and n = 4
        and ?files1.0 = "[''tests/a.in'', ''tests/b.in'', ''tests/c.in'', ''tests/d.in'']"]
  from t p r have c1: "run_cases ?c demo_world demo_all_files
        (initial_stats 4) [''tests/a.in'', ''tests/b.in'', ''tests/c.in'', ''tests/d.in'']
      = (Stop (Raise ValueError), [], ?st)"
    by simp
  from t d o l p r have c2: "main ?c demo_world = ([], Inl ValueError)"
    by simp
  from h1 h2 h3 h4 h5 h6 h7 d o l p r c1 c2 show ?thesis by blast
qed

text \<open>
  Against the claim as worded: the same run, with the progress lines printed.  The first
  case is right, the second cannot be parsed; the run ends there with the exception,
  the third and fourth case are never started and no summary line is printed.
\<close>

theorem parse_failure_not_recovered_counterexample:
  "result_dist (demo_config\<lparr>result_dist := Some (Finite 0), verbose := True\<rparr>) = Some (Finite 0)
   \<and> readfile demo_world ''tests/b.out'' = Some ''y''
   \<and> py_float ''y'' = None
   \<and> main (demo_config\<lparr>result_dist := Some (Finite 0), verbose := True\<rparr>) demo_world
      = ([Test_progress ''tests/a'' [] 0 4 (Finite 0), Correct_line,
          Test_progress ''tests/b'' [] 1 4 (Finite 25)],
         Inl ValueError)"
  by code_simp

lemma py_le_refl: "e \<noteq> NaN \<Longrightarrow> py_le e e"
  by (cases e) auto

lemma float_of_1_00000000001:
  "py_float ''1.00000000001'' = Some (Finite (1125899906853883 / 1125899906842624))"
  by code_simp

lemma float_of_1_0000000001:
  "py_float ''1.0000000001'' = Some (Finite (562949953477607 / 562949953421312))"
  by code_simp

lemma float_of_1_0: "py_float ''1.0'' = Some (Finite 1)"
  by code_simp

lemma eleventh_decimal_rounds_to_zero:
  "py_round 10 (py_abs (py_sub (Finite (1125899906853883 / 1125899906842624)) (Finite 1)))
     = Finite 0"
  by code_simp

lemma tenth_decimal_does_not_round_to_zero:
  "\<not> py_le (py_round 10 (py_abs (py_sub (Finite (562949953477607 / 562949953421312)) (Finite 1))))
        (Finite 0)"
  by code_simp

text \<open>
  Claim C4, as the code has it.  In numeric-tolerance mode the verdict is
  \<^verbatim>\<open>round(abs(expected - actual), 10) <= epsilon\<close>, so that a rounded difference equal to
  epsilon is within tolerance.  With epsilon 0, the expected text 1.00000000001 against
  the actual output 1.0 is correct: the difference, about 1e-11, rounds to zero at
  10 decimal digits.
\<close>

theorem numeric_verdict_rounds_to_ten_digits:
  assumes "result_dist cfg = Some eps"
    and "py_float outdata = Some x" and "py_float out = Some y"
  shows "evaluate cfg w indata outdata out
           = Inr (py_le (py_round 10 (py_abs (py_sub x y))) eps, outdata, [])
         \<and> (py_round 10 (py_abs (py_sub x y)) = eps \<and> eps \<noteq> NaN \<longrightarrow>
              evaluate cfg w indata outdata out = Inr (True, outdata, []))
         \<and> evaluate (cfg\<lparr>result_dist := Some (Finite 0)\<rparr>) w indata ''1.00000000001'' ''1.0''
             = Inr (True, ''1.00000000001'', [])"
proof -
  have a: "evaluate cfg w indata outdata out
           = Inr (py_le (py_round 10 (py_abs (py_sub x y))) eps, outdata, [])"
    using assms by (simp add: evaluate_numeric)
  have b: "evaluate (cfg\<lparr>result_dist := Some (Finite 0)\<rparr>) w indata ''1.00000000001'' ''1.0''
             = Inr (True, ''1.00000000001'', [])"
    by (simp add: evaluate_numeric[where eps = "Finite 0"] float_of_1_00000000001 float_of_1_0
        eleventh_decimal_rounds_to_zero del: py_round.simps py_sub.simps py_abs.simps)
  from a b show ?thesis by (auto simp: py_le_refl)
qed

text \<open>
  The two sides of the tenth decimal, with tolerance 0: a difference in the eleventh
  decimal is accepted, a difference in the tenth is not.
\<close>

theorem numeric_verdict_rounds_to_ten_digits_witness:
  "result_dist (demo_config\<lparr>result_dist := Some (Finite 0)\<rparr>) = Some (Finite 0)
   \<and> py_float ''1.0000000001'' = Some (Finite (562949953477607 / 562949953421312))
   \<and> py_float ''1.0'' = Some (Finite 1)
   \<and> evaluate (demo_config\<lparr>result_dist := Some (Finite 0)\<rparr>) demo_world ''1'' ''1.0000000001''
        ''1.0''
      = Inr (False, ''1.0000000001'', [])
   \<and> evaluate (demo_config\<lparr>result_dist := Some (Finite 0)\<rparr>) demo_world ''1''
        ''1.00000000001'' ''1.0''
      = Inr (True, ''1.00000000001'', [])"
proof -
  have h1: "result_dist (demo_config\<lparr>result_dist := Some (Finite 0)\<rparr>) = Some (Finite 0)"
    by simp
  note t = numeric_verdict_rounds_to_ten_digits[OF h1 float_of_1_0000000001 float_of_1_0,
      of demo_world "''1''"]
  from t tenth_decimal_does_not_round_to_zero
  have c1: "evaluate (demo_config\<lparr>result_dist := Some (Finite 0)\<rparr>) demo_world ''1''
        ''1.0000000001'' ''1.0'' = Inr (False, ''1.0000000001'', [])"
    by simp
  from t have c2: "evaluate (demo_config\<lparr>result_dist := Some (Finite 0)\<rparr>) demo_world ''1''
        ''1.00000000001'' ''1.0'' = Inr (True, ''1.00000000001'', [])"
    by simp
  from h1 float_of_1_0000000001 float_of_1_0 c1 c2 show ?thesis by blast
qed

text \<open>
  Against the claim as worded: the example of the claim is judged correct, and the case
  is counted as correct, not as failing.
\<close>

theorem eleventh_decimal_is_correct_counterexample:
  "fst (after_invocation (demo_config\<lparr>result_dist := Some (Finite 0)\<rparr>) demo_world
          (initial_stats 1) ''t'' ''1'' ''1.00000000001'' ''1.0'' (Finite (1 / 4))) = Next
   \<and> correct (snd (snd (after_invocation (demo_config\<lparr>result_dist := Some (Finite 0)\<rparr>)
          demo_world (initial_stats 1) ''t'' ''1'' ''1.00000000001'' ''1.0'' (Finite (1 / 4))))) = 1
   \<and> wrong (snd (snd (after_invocation (demo_config\<lparr>result_dist := Some (Finite 0)\<rparr>)
          demo_world (initial_stats 1) ''t'' ''1'' ''1.00000000001'' ''1.0'' (Finite (1 / 4))))) = []"
  by code_simp

section \<open>The choice of the evaluator\<close>

text \<open>The verdict of the code is the verdict of the specification, and it fails where that has none.\<close>

lemma evaluate_spec_verdict:
  "(case evaluate cfg w indata outdata out of Inl s \<Rightarrow> None | Inr (v, e, ls) \<Rightarrow> Some v)
     = spec_verdict cfg w indata outdata out"
  by (auto simp: evaluate_def spec_verdict_def numeric_tolerance_verdict_def
      checker_verdict_def call_for_status_code_def exact_verdict_def Let_def
      split: option.splits call.splits)

lemma after_invocation_verdict:
  assumes "after_invocation cfg w st name indata outdata out t = (Next, l, st')"
  shows "\<exists>v e ls. evaluate cfg w indata outdata out = Inr (v, e, ls)
           \<and> (if v then correct st' = correct st + 1 \<and> wrong st' = wrong st
               else correct st' = correct st \<and> wrong st' = wrong st @ [name])"
proof (cases "evaluate cfg w indata outdata out")
  case (Inl s)
  with assms show ?thesis by (simp add: after_invocation_def Let_def)
next
  case (Inr r)
  obtain v e ls where r: "r = (v, e, ls)" by (cases r) auto
  show ?thesis
  proof (cases v)
    case True
    with assms Inr r have "correct st' = correct st + 1 \<and> wrong st' = wrong st"
      by (auto simp: after_invocation_def Let_def)
    with Inr r True show ?thesis by auto
  next
    case False
    with assms Inr r have "correct st' = correct st \<and> wrong st' = wrong st @ [name]"
      by (auto simp: after_invocation_def Let_def)
    with Inr r False show ?thesis by auto
  qed
qed

text \<open>The statistics of a case follow the verdict of the specification.\<close>

lemma after_invocation_by_verdict:
  "case spec_verdict cfg w indata outdata out of
     None \<Rightarrow>
       (\<exists>s. fst (after_invocation cfg w st name indata outdata out t) = Stop s)
       \<and> total_n (snd (snd (after_invocation cfg w st name indata outdata out t))) = total_n st
       \<and> correct (snd (snd (after_invocation cfg w st name indata outdata out t))) = correct st
       \<and> wrong (snd (snd (after_invocation cfg w st name indata outdata out t))) = wrong st
   | Some v \<Rightarrow>
       fst (after_invocation cfg w st name indata outdata out t) = Next
       \<and> total_n (snd (snd (after_invocation cfg w st name indata outdata out t)))
           = total_n st + 1
       \<and> (if v
           then correct (snd (snd (after_invocation cfg w st name indata outdata out t)))
                  = correct st + 1
                \<and> wrong (snd (snd (after_invocation cfg w st name indata outdata out t)))
                  = wrong st
           else correct (snd (snd (after_invocation cfg w st name indata outdata out t)))
                  = correct st
                \<and> wrong (snd (snd (after_invocation cfg w st name indata outdata out t)))
                  = wrong st @ [name])"
proof (cases "evaluate cfg w indata outdata out")
  case (Inl s)
  with evaluate_spec_verdict[of cfg w indata outdata out]
  have "spec_verdict cfg w indata outdata out = None" by simp
  with Inl show ?thesis by (simp add: after_invocation_def Let_def)
next
  case (Inr r)
  obtain v e ls where r: "r = (v, e, ls)" by (cases r) auto
  with Inr evaluate_spec_verdict[of cfg w indata outdata out]
  have "spec_verdict cfg w indata outdata out = Some v" by simp
  with Inr r show ?thesis by (cases v) (simp_all add: after_invocation_def Let_def)
qed

lemma run_case_by_verdict:
  assumes "approx_total st \<noteq> 0"
    and "readfile w f = Some intext" and "strip intext \<noteq> []"
    and "expected_of cfg w af f = Some outdata"
    and "call_with_io_timed w (app cfg) (strip intext) = Returns (out, t)"
  shows "case spec_verdict cfg w (strip intext) outdata (strip out) of
     None \<Rightarrow>
       (\<exists>s. fst (run_case cfg w af st f) = Stop s)
       \<and> total_n (snd (snd (run_case cfg w af st f))) = total_n st
       \<and> correct (snd (snd (run_case cfg w af st f))) = correct st
       \<and> wrong (snd (snd (run_case cfg w af st f))) = wrong st
   | Some v \<Rightarrow>
       fst (run_case cfg w af st f) = Next
       \<and> total_n (snd (snd (run_case cfg w af st f))) = total_n st + 1
       \<and> (if v
           then correct (snd (snd (run_case cfg w af st f))) = correct st + 1
                \<and> wrong (snd (snd (run_case cfg w af st f))) = wrong st
           else correct (snd (snd (run_case cfg w af st f))) = correct st
                \<and> wrong (snd (snd (run_case cfg w af st f)))
                  = wrong st @ [take (length f - 3) f])"
proof -
  from run_case_evaluated[OF assms]
  have e1: "fst (run_case cfg w af st f)
           = fst (after_invocation cfg w st (take (length f - 3) f) (strip intext) outdata
                    (strip out) t)"
    and e2: "snd (snd (run_case cfg w af st f))
           = snd (snd (after_invocation cfg w st (take (length f - 3) f) (strip intext) outdata
                         (strip out) t))"
    by simp_all
  show ?thesis
    unfolding e1 e2 by (rule after_invocation_by_verdict)
qed

text \<open>
  Claim C5.  The verdict of a case is that of one evaluator, chosen by precedence: the
  numeric comparison if a tolerance is configured; otherwise the exit status of the
  checker process if a checker is configured (0 is correct, anything else incorrect);
  otherwise the exact comparison, where an empty expected output accepts anything under
  empty-means-any.  The evaluation of the code gives that verdict and fails where there
  is none, and the loop body of every case that reaches the evaluation updates the
  statistics with it.
\<close>

theorem verdict_by_precedence:
  "(case evaluate cfg w indata outdata out of Inl s \<Rightarrow> None | Inr (v, e, ls) \<Rightarrow> Some v)
     = spec_verdict cfg w indata outdata out
   \<and> (after_invocation cfg w st name indata outdata out t = (Next, l, st') \<longrightarrow>
        (\<exists>v. spec_verdict cfg w indata outdata out = Some v
           \<and> (if v then correct st' = correct st + 1 \<and> wrong st' = wrong st
               else correct st' = correct st \<and> wrong st' = wrong st @ [name])))
   \<and> (approx_total st \<noteq> 0 \<and> readfile w f = Some intext \<and> strip intext \<noteq> []
       \<and> expected_of cfg w af f = Some expected
       \<and> call_with_io_timed w (app cfg) (strip intext) = Returns (actual, secs) \<longrightarrow>
        (case spec_verdict cfg w (strip intext) expected (strip actual) of
           None \<Rightarrow>
             (\<exists>s. fst (run_case cfg w af st f) = Stop s)
             \<and> total_n (snd (snd (run_case cfg w af st f))) = total_n st
             \<and> correct (snd (snd (run_case cfg w af st f))) = correct st
             \<and> wrong (snd (snd (run_case cfg w af st f))) = wrong st
         | Some v \<Rightarrow>
             fst (run_case cfg w af st f) = Next
             \<and> total_n (snd (snd (run_case cfg w af st f))) = total_n st + 1
             \<and> (if v
                 then correct (snd (snd (run_case cfg w af st f))) = correct st + 1
                      \<and> wrong (snd (snd (run_case cfg w af st f))) = wrong st
                 else correct (snd (snd (run_case cfg w af st f))) = correct st
                      \<and> wrong (snd (snd (run_case cfg w af st f)))
                        = wrong st @ [take (length f - 3) f])))"
proof -
  have a: "(case evaluate cfg w indata outdata out of Inl s \<Rightarrow> None | Inr (v, e, ls) \<Rightarrow> Some v)
     = spec_verdict cfg w indata outdata out"
    by (rule evaluate_spec_verdict)
  have b: "\<exists>v. spec_verdict cfg w indata outdata out = Some v
           \<and> (if v then correct st' = correct st + 1 \<and> wrong st' = wrong st
               else correct st' = correct st \<and> wrong st' = wrong st @ [name])"
    if h: "after_invocation cfg w st name indata outdata out t = (Next, l, st')"
  proof -
    from after_invocation_verdict[OF h] obtain v e ls where
      ev: "evaluate cfg w indata outdata out = Inr (v, e, ls)"
      and upd: "if v then correct st' = correct st + 1 \<and> wrong st' = wrong st
               else correct st' = correct st \<and> wrong st' = wrong st @ [name]"
      by blast
    from ev a have "spec_verdict cfg w indata outdata out = Some v" by simp
    with upd show ?thesis by blast
  qed
  note c = run_case_by_verdict[where st = st and w = w and f = f and intext = intext
      and cfg = cfg and af = af and outdata = expected and out = actual and t = secs]
  from a b c show ?thesis by blast
qed


text \<open>
  One case for each evaluator: the exact comparison rejects \<^verbatim>\<open>x\<close> for \<^verbatim>\<open>y\<close>; the
  checker rejects the case \<^verbatim>\<open>tests/b\<close> with status 3 and accepts the payload of 5 and
  5 whatever is expected; with a tolerance and a checker, the tolerance decides.
\<close>

theorem verdict_by_precedence_witness:
  "after_invocation demo_config demo_world (initial_stats 4) ''tests/b'' ''x'' ''y'' ''x''
       (Finite (1 / 4))
     = (Next, [], (initial_stats 4)\<lparr>wrong := [''tests/b''], total_n := 1\<rparr>)
   \<and> spec_verdict demo_config demo_world ''x'' ''y'' ''x'' = Some False
   \<and> approx_total (initial_stats 4) \<noteq> 0
   \<and> readfile demo_world ''tests/b.in'' = Some ''x'' \<and> strip ''x'' \<noteq> []
   \<and> expected_of (demo_config\<lparr>checker := Some ''chk''\<rparr>) demo_world demo_all_files
        ''tests/b.in'' = Some ''y''
   \<and> call_with_io_timed demo_world (app (demo_config\<lparr>checker := Some ''chk''\<rparr>)) (strip ''x'')
        = Returns ([CHR ''x'', CHR 0x0A], Finite (1 / 4))
   \<and> subprocess_run demo_world ''chk'' [CHR ''x'', CHR 0x0A, CHR ''x'']
        = Returns \<lparr>stdout = [], returncode = 3, elapsed = Finite (1 / 8)\<rparr>
   \<and> spec_verdict (demo_config\<lparr>checker := Some ''chk''\<rparr>) demo_world (strip ''x'') ''y''
        (strip [CHR ''x'', CHR 0x0A]) = Some False
   \<and> fst (run_case (demo_config\<lparr>checker := Some ''chk''\<rparr>) demo_world demo_all_files
          (initial_stats 4) ''tests/b.in'') = Next
   \<and> wrong (snd (snd (run_case (demo_config\<lparr>checker := Some ''chk''\<rparr>) demo_world
          demo_all_files (initial_stats 4) ''tests/b.in''))) = [''tests/b'']
   \<and> correct (snd (snd (run_case (demo_config\<lparr>checker := Some ''chk''\<rparr>) demo_world
          demo_all_files (initial_stats 4) ''tests/b.in''))) = 0
   \<and> evaluate (demo_config\<lparr>checker := Some ''chk''\<rparr>) demo_world ''5'' ''y'' ''5''
       = Inr (True, ''[[Got status code 0 from chk]]'', [])
   \<and> spec_verdict (demo_config\<lparr>checker := Some ''chk''\<rparr>) demo_world ''5'' ''y'' ''5''
       = Some True
   \<and> evaluate (demo_config\<lparr>checker := Some ''chk'', result_dist := Some (Finite 0)\<rparr>)
         demo_world ''5'' ''6.0'' ''6'' = Inr (True, ''6.0'', [])
   \<and> spec_verdict (demo_config\<lparr>checker := Some ''chk'', result_dist := Some (Finite 0)\<rparr>)
         demo_world ''5'' ''6.0'' ''6'' = Some True"
proof -
  let ?c = "demo_config\<lparr>checker := Some ''chk''\<rparr>"
  have h: "after_invocation demo_config demo_world (initial_stats 4) ''tests/b'' ''x'' ''y'' ''x''
       (Finite (1 / 4))
     = (Next, [], (initial_stats 4)\<lparr>wrong := [''tests/b''], total_n := 1\<rparr>)"
    by code_simp
  have e1: "evaluate ?c demo_world ''5'' ''y'' ''5''
       = Inr (True, ''[[Got status code 0 from chk]]'', [])"
    by code_simp
  have e2: "evaluate (demo_config\<lparr>checker := Some ''chk'', result_dist := Some (Finite 0)\<rparr>)
         demo_world ''5'' ''6.0'' ''6'' = Inr (True, ''6.0'', [])"
    by code_simp
  have r1: "approx_total (initial_stats 4) \<noteq> 0"
    by (simp add: initial_stats_def)
  have r2: "readfile demo_world ''tests/b.in'' = Some ''x''"
    by code_simp
  have r3: "strip ''x'' \<noteq> []"
    by code_simp
  have r4: "expected_of ?c demo_world demo_all_files ''tests/b.in'' = Some ''y''"
    by code_simp
  have r5: "call_with_io_timed demo_world (app ?c) (strip ''x'')
        = Returns ([CHR ''x'', CHR 0x0A], Finite (1 / 4))"
    by code_simp
  have r6: "subprocess_run demo_world ''chk'' [CHR ''x'', CHR 0x0A, CHR ''x'']
        = Returns \<lparr>stdout = [], returncode = 3, elapsed = Finite (1 / 8)\<rparr>"
    by code_simp
  have r7: "spec_verdict ?c demo_world (strip ''x'') ''y''
        (strip [CHR ''x'', CHR 0x0A]) = Some False"
    by code_simp
  have n: "take (length ''tests/b.in'' - 3) ''tests/b.in'' = ''tests/b''"
    by simp
  note t0 = verdict_by_precedence[where cfg = demo_config and w = demo_world
      and st = "initial_stats 4" and name = "''tests/b''" and indata = "''x''"
      and outdata = "''y''" and out = "''x''" and t = "Finite (1 / 4)" and l = "[]"
      and st' = "(initial_stats 4)\<lparr>wrong := [''tests/b''], total_n := 1\<rparr>"]
  from t0[THEN conjunct2, THEN conjunct1, THEN mp, OF h]
  have c0: "spec_verdict demo_config demo_world ''x'' ''y'' ''x'' = Some False"
    by (auto simp: initial_stats_def split: if_splits)
  note t1 = verdict_by_precedence[where cfg = ?c and w = demo_world
      and st = "initial_stats 4" and f = "''tests/b.in''" and intext = "''x''"
      and af = demo_all_files and expected = "''y''"
      and actual = "[CHR ''x'', CHR 0x0A]" and secs = "Finite (1 / 4)"
      and indata = "''5''" and outdata = "''y''" and out = "''5''"]
  from r1 r2 r3 r4 r5
  have hyp: "approx_total (initial_stats 4) \<noteq> 0 \<and> readfile demo_world ''tests/b.in'' = Some ''x''
      \<and> strip ''x'' \<noteq> []
      \<and> expected_of ?c demo_world demo_all_files ''tests/b.in'' = Some ''y''
      \<and> call_with_io_timed demo_world (app ?c) (strip ''x'')
          = Returns ([CHR ''x'', CHR 0x0A], Finite (1 / 4))"
    by blast
  from t1[THEN conjunct2, THEN conjunct2, THEN mp, OF hyp] r7 n
  have c3: "fst (run_case ?c demo_world demo_all_files (initial_stats 4) ''tests/b.in'') = Next
     \<and> wrong (snd (snd (run_case ?c demo_world demo_all_files (initial_stats 4)
          ''tests/b.in''))) = [''tests/b'']
     \<and> correct (snd (snd (run_case ?c demo_world demo_all_files (initial_stats 4)
          ''tests/b.in''))) = 0"
    by (simp add: initial_stats_def)
  from t1[THEN conjunct1] e1
  have c1: "spec_verdict ?c demo_world ''5'' ''y'' ''5'' = Some True"
    by simp
  from verdict_by_precedence[
      where cfg = "demo_config\<lparr>checker := Some ''chk'', result_dist := Some (Finite 0)\<rparr>"
      and w = demo_world and indata = "''5''" and outdata = "''6.0''" and out = "''6''",
      THEN conjunct1] e2
  have c2: "spec_verdict (demo_config\<lparr>checker := Some ''chk'', result_dist := Some (Finite 0)\<rparr>)
         demo_world ''5'' ''6.0'' ''6'' = Some True"
    by simp
  from h e1 e2 r1 r2 r3 r4 r5 r6 r7 c0 c1 c2 c3 show ?thesis by blast
qed

section \<open>The report\<close>

lemma report_empty: "total_n st = 0 \<Longrightarrow> report cfg st = ([Done_testing (app cfg), No_valid_tests], Inr False)"
  by (simp add: report_def)


lemma main_report:
  assumes "testing_loop cfg w = Inr (fl, l, st)" and "fl = Next \<or> fl = Stop Cancelled"
  shows "main cfg w = (l @ fst (report cfg st), snd (report cfg st))"
  using assms by (auto simp: main_def split: prod.splits)





section \<open>Cancellation\<close>

text \<open>What the report holds when at least one case was evaluated.\<close>

lemma report_contents:
  assumes "total_n st \<noteq> 0"
  shows "snd (report cfg st) = Inr True
       \<and> (\<exists>pc. Correct_out_of (correct st) (total_n st) pc \<in> set (fst (report cfg st)))
       \<and> (wrong st \<noteq> [] \<longrightarrow> Name_list (wrong st) \<in> set (fst (report cfg st)))
       \<and> (overtime st \<noteq> [] \<longrightarrow> Name_list (overtime st) \<in> set (fst (report cfg st)))
       \<and> (timer cfg \<longrightarrow> Times_line (printed_times (times_l st)) \<in> set (fst (report cfg st)))"
proof -
  from assms obtain pc where pc: "percent (int (correct st)) (int (total_n st)) = Some pc"
    using percent_Some[of "int (total_n st)" "int (correct st)"] by auto
  from assms obtain po where po: "percent (int (overtime_count st)) (int (total_n st)) = Some po"
    using percent_Some[of "int (total_n st)" "int (overtime_count st)"] by auto
  define rest where "rest =
     (if wrong st \<noteq> [] then [Tests_that_failed, Name_list (wrong st)] else [])
     @ (if overtime st \<noteq> []
        then [Went_overtime (overtime_count st) (total_n st) po, Name_list (overtime st)] else [])
     @ (if timer cfg then [Times_line (printed_times (times_l st))] else [])"
  have r: "report cfg st
      = ([Done_testing (app cfg), Correct_out_of (correct st) (total_n st) pc] @ rest, Inr True)"
    using assms by (simp add: report_def pc po rest_def)
  have "wrong st \<noteq> [] \<longrightarrow> Name_list (wrong st) \<in> set rest"
    and "overtime st \<noteq> [] \<longrightarrow> Name_list (overtime st) \<in> set rest"
    and "timer cfg \<longrightarrow> Times_line (printed_times (times_l st)) \<in> set rest"
    by (simp_all add: rest_def)
  with r show ?thesis by auto
qed





section \<open>The checker and the expected output\<close>



















section \<open>Divisions\<close>

lemma percent_None: "percent a b = None \<longleftrightarrow> b = 0"
  by (simp add: percent_def py_truediv_def)

lemma evaluate_no_zero_division:
  "evaluate cfg w indata outdata out \<noteq> Inl (Raise ZeroDivisionError)"
  by (simp add: evaluate_def Let_def split: option.splits call.splits)

lemma after_invocation_approx_total:
  assumes "after_invocation cfg w st name indata outdata out t = (fl, l, st')"
  shows "fl \<noteq> Stop (Raise ZeroDivisionError) \<and> approx_total st' = approx_total st"
  using assms evaluate_no_zero_division[of cfg w indata outdata out]
  by (auto simp: after_invocation_def Let_def split: sum.splits prod.splits if_splits)

lemma after_discovery_approx_total:
  assumes "after_discovery cfg w st name infile indata outdata = (fl, l, st')"
  shows "fl \<noteq> Stop (Raise ZeroDivisionError)
         \<and> (approx_total st' = approx_total st \<or> approx_total st' = approx_total st - 1)"
  using assms
  by (auto simp: after_discovery_def Let_def split: if_splits call.splits prod.splits
      dest: after_invocation_approx_total)

lemma run_case_approx_total:
  assumes "run_case cfg w af st f = (fl, l, st')"
  shows "(fl = Stop (Raise ZeroDivisionError) \<longrightarrow> approx_total st = 0)
         \<and> (approx_total st' = approx_total st \<or> approx_total st' = approx_total st - 1)"
  using assms
  by (auto simp: run_case_def Let_def percent_None split: if_splits option.splits prod.splits
      dest: after_discovery_approx_total)


text \<open>
  The pool size is negative, or it is at least the number of files still to run: a case
  takes at most one from it.
\<close>

lemma run_cases_no_zero_division:
  "approx_total st < 0 \<or> int (length fs) \<le> approx_total st
   \<Longrightarrow> run_cases cfg w af st fs = (fl, l, st')
   \<Longrightarrow> fl \<noteq> Stop (Raise ZeroDivisionError)"
proof (induction fs arbitrary: st fl l st')
  case Nil
  then show ?case by auto
next
  case (Cons f fs)
  obtain f1 l1 st1 where r: "run_case cfg w af st f = (f1, l1, st1)"
    by (cases "run_case cfg w af st f") auto
  from Cons.prems(1) have nz: "approx_total st \<noteq> 0" by auto
  note a = run_case_approx_total[OF r]
  show ?case
  proof (cases f1)
    case Next
    obtain f2 l2 st2 where r2: "run_cases cfg w af st1 fs = (f2, l2, st2)"
      by (cases "run_cases cfg w af st1 fs") auto
    from a Cons.prems(1) have "approx_total st1 < 0 \<or> int (length fs) \<le> approx_total st1"
      by auto
    from Cons.IH[OF this r2] have "f2 \<noteq> Stop (Raise ZeroDivisionError)" .
    with Cons.prems(2) r Next r2 show ?thesis by simp
  next
    case (Stop s)
    with Cons.prems(2) r have "fl = f1" by simp
    with a nz show ?thesis by auto
  qed
qed

lemma loop_denominators_sign:
  "approx_total st < 0 \<or> int (length fs) \<le> approx_total st
   \<Longrightarrow> a \<in> set (loop_denominators cfg w af st fs)
   \<Longrightarrow> a \<noteq> 0 \<and> (if approx_total st < 0 then a \<le> approx_total st else 1 \<le> a)"
proof (induction fs arbitrary: st)
  case Nil
  then show ?case by simp
next
  case (Cons f fs)
  obtain f1 l1 st1 where r: "run_case cfg w af st f = (f1, l1, st1)"
    by (cases "run_case cfg w af st f") auto
  note ap = run_case_approx_total[OF r]
  from Cons.prems(1) have here: "approx_total st \<noteq> 0
      \<and> (if approx_total st < 0 then approx_total st \<le> approx_total st else 1 \<le> approx_total st)"
    by auto
  show ?case
  proof (cases "a = approx_total st")
    case True
    with here show ?thesis by simp
  next
    case False
    with Cons.prems(2) r have f1: "f1 = Next" and mem: "a \<in> set (loop_denominators cfg w af st1 fs)"
      by (auto split: flow.splits)
    from ap Cons.prems(1) have inv: "approx_total st1 < 0 \<or> int (length fs) \<le> approx_total st1"
      by auto
    from Cons.IH[OF inv mem] ap Cons.prems(1) show ?thesis
      by (auto split: if_splits)
  qed
qed

text \<open>Sorting and, by assumption, shuffling keep the number of files.\<close>

lemma length_insert_by: "length (insert_by lt key x xs) = Suc (length xs)"
  by (induction xs) auto

lemma length_sort_by: "length (sort_by lt key xs) = length xs"
  by (induction xs) (auto simp: sort_by_def length_insert_by)

lemma discover_count:
  "discover cfg w = Inr (af, files0, n0) \<Longrightarrow> n0 = int (length files0)"
  by (auto simp: discover_def split: option.splits)

lemma order_files_length:
  assumes "\<forall>xs. length (random_shuffle w xs) = length xs"
    and "order_files cfg w files0 = Inr files1"
  shows "length files1 = length files0"
  using assms by (auto simp: order_files_def length_sort_by split: if_splits)

lemma apply_limit_pool:
  assumes "apply_limit cfg files1 (int (length files1)) = (files, n)"
  shows "(n < 0 \<or> int (length files) \<le> n)
         \<and> (n < 0 \<longleftrightarrow> (\<exists>k. limit cfg = Some k \<and> k < 0))"
  using assms
  by (auto simp: apply_limit_def py_take_def split: option.splits if_splits)


lemma report_no_zero_division: "snd (report cfg st) \<noteq> Inl ZeroDivisionError"
proof (cases "total_n st = 0")
  case True
  then show ?thesis by (simp add: report_empty)
next
  case False
  then show ?thesis by (simp add: report_contents)
qed

lemma testing_loop_error: "testing_loop cfg w = Inl e \<Longrightarrow> e = OSError"
  by (auto simp: testing_loop_def discover_def order_files_def
      split: sum.splits prod.splits option.splits if_splits)

lemma testing_loop_pool:
  assumes "\<forall>xs. length (random_shuffle w xs) = length xs"
    and "discover cfg w = Inr (af, files0, n0)"
    and "order_files cfg w files0 = Inr files1"
    and "apply_limit cfg files1 n0 = (files, n)"
  shows "(approx_total (initial_stats n) < 0 \<or> int (length files) \<le> approx_total (initial_stats n))
         \<and> (approx_total (initial_stats n) < 0 \<longleftrightarrow> (\<exists>k. limit cfg = Some k \<and> k < 0))"
proof -
  from discover_count[OF assms(2)] order_files_length[OF assms(1,3)]
  have "n0 = int (length files1)" by simp
  with assms(4) have "apply_limit cfg files1 (int (length files1)) = (files, n)" by simp
  from apply_limit_pool[OF this] have "(n < 0 \<or> int (length files) \<le> n)
         \<and> (n < 0 \<longleftrightarrow> (\<exists>k. limit cfg = Some k \<and> k < 0))" .
  moreover have "approx_total (initial_stats n) = n" by (simp add: initial_stats_def)
  ultimately show ?thesis by metis
qed

lemma main_no_zero_division:
  assumes "\<forall>xs. length (random_shuffle w xs) = length xs"
  shows "snd (main cfg w) \<noteq> Inl ZeroDivisionError"
proof (cases "testing_loop cfg w")
  case (Inl e)
  from testing_loop_error[OF Inl] Inl show ?thesis by (simp add: main_def)
next
  case (Inr r)
  obtain fl l st where r: "r = (fl, l, st)" by (cases r) auto
  from Inr r obtain af files0 n0 files1 files n where
    d: "discover cfg w = Inr (af, files0, n0)" and
    o: "order_files cfg w files0 = Inr files1" and
    a: "apply_limit cfg files1 n0 = (files, n)" and
    rc: "run_cases cfg w af (initial_stats n) files = (fl, l, st)"
    by (auto simp: testing_loop_def split: sum.splits prod.splits)
  from testing_loop_pool[OF assms d o a]
  have "approx_total (initial_stats n) < 0 \<or> int (length files) \<le> approx_total (initial_stats n)"
    by blast
  from run_cases_no_zero_division[OF this rc] have nz: "fl \<noteq> Stop (Raise ZeroDivisionError)" .
  show ?thesis
  proof (cases fl)
    case Next
    with Inr r main_report[of cfg w fl l st] report_no_zero_division[of cfg st]
    show ?thesis by simp
  next
    case (Stop s)
    show ?thesis
    proof (cases s)
      case Cancelled
      with Stop Inr r main_report[of cfg w fl l st] report_no_zero_division[of cfg st]
      show ?thesis by simp
    next
      case (Raise e)
      with Stop nz have "e \<noteq> ZeroDivisionError" by simp
      with Raise Stop Inr r main_raise[of cfg w e l st] show ?thesis by simp
    qed
  qed
qed

lemma progress_denominators_sign:
  assumes "\<forall>xs. length (random_shuffle w xs) = length xs"
    and "a \<in> set (progress_denominators cfg w)"
  shows "a \<noteq> 0 \<and> (if \<exists>k. limit cfg = Some k \<and> k < 0 then a < 0 else 1 \<le> a)"
proof -
  from assms(2) obtain af files0 n0 files1 files n where
    d: "discover cfg w = Inr (af, files0, n0)" and
    o: "order_files cfg w files0 = Inr files1" and
    l: "apply_limit cfg files1 n0 = (files, n)" and
    m: "a \<in> set (loop_denominators cfg w af (initial_stats n) files)"
    by (auto simp: progress_denominators_def split: sum.splits prod.splits) metis
  note p = testing_loop_pool[OF assms(1) d o l]
  from p have inv: "approx_total (initial_stats n) < 0
      \<or> int (length files) \<le> approx_total (initial_stats n)" by blast
  from loop_denominators_sign[OF inv m] p show ?thesis
    by (auto split: if_splits)
qed

text \<open>
  Claim C9, as the code has it.  No division of \<^verbatim>\<open>main\<close> divides by zero.  Each time
  the progress percentage \<^verbatim>\<open>total / approx_total\<close> is computed, \<^verbatim>\<open>approx_total\<close>
  is not zero: it is at least 1, except under a negative limit, where it is negative.
  The percentages of the report are computed only when \<^verbatim>\<open>total\<close> is not zero.  The
  shuffle of the world is assumed to keep the length of the list.
\<close>

theorem divisions_are_guarded:
  assumes "\<forall>xs. length (random_shuffle w xs) = length xs"
  shows "snd (main cfg w) \<noteq> Inl ZeroDivisionError
       \<and> (\<forall>a \<in> set (progress_denominators cfg w).
            a \<noteq> 0 \<and> (if \<exists>k. limit cfg = Some k \<and> k < 0 then a < 0 else 1 \<le> a))
       \<and> snd (report cfg st) \<noteq> Inl ZeroDivisionError
       \<and> (total_n st = 0 \<longrightarrow>
             report cfg st = ([Done_testing (app cfg), No_valid_tests], Inr False))"
  using main_no_zero_division[OF assms] progress_denominators_sign[OF assms]
    report_no_zero_division report_empty
  by blast

text \<open>
  The example directory, shuffled: the pool size is 4 for the first two cases and 3 after
  the case without expected output is skipped.
\<close>

theorem divisions_are_guarded_witness:
  "(\<forall>xs. length (random_shuffle demo_world xs) = length xs)
   \<and> progress_denominators (demo_config\<lparr>shuffle := True\<rparr>) demo_world = [4, 4, 3, 3]
   \<and> snd (main (demo_config\<lparr>shuffle := True\<rparr>) demo_world) \<noteq> Inl ZeroDivisionError
   \<and> report (demo_config\<lparr>shuffle := True\<rparr>) (initial_stats 4)
       = ([Done_testing ''app'', No_valid_tests], Inr False)"
proof -
  have h: "\<forall>xs. length (random_shuffle demo_world xs) = length xs"
    by (simp add: demo_world_def)
  have p: "progress_denominators (demo_config\<lparr>shuffle := True\<rparr>) demo_world = [4, 4, 3, 3]"
    by code_simp
  have a: "app (demo_config\<lparr>shuffle := True\<rparr>) = ''app''"
    by code_simp
  have z: "total_n (initial_stats 4) = 0"
    by (simp add: initial_stats_def)
  note t = divisions_are_guarded[OF h, of "demo_config\<lparr>shuffle := True\<rparr>" "initial_stats 4"]
  from t have c1: "snd (main (demo_config\<lparr>shuffle := True\<rparr>) demo_world)
      \<noteq> Inl ZeroDivisionError"
    by blast
  from t z a have c2: "report (demo_config\<lparr>shuffle := True\<rparr>) (initial_stats 4)
       = ([Done_testing ''app'', No_valid_tests], Inr False)"
    by simp
  from h p c1 c2 show ?thesis by simp
qed

text \<open>
  Against the claim as worded: with the limit \<open>- 1\<close> the list loses its last file and
  \<^verbatim>\<open>approx_total\<close> is \<open>- 1\<close> in every pass, which is not at least 1.  The run goes
  through, with negative progress percentages.
\<close>

theorem negative_limit_counterexample:
  "progress_denominators (demo_config\<lparr>limit := Some (- 1)\<rparr>) demo_world = [- 1, - 1, - 1]
   \<and> \<not> 1 \<le> (- 1 :: int)
   \<and> main (demo_config\<lparr>limit := Some (- 1), verbose := True\<rparr>) demo_world
      = ([Test_progress ''tests/a'' [] 0 (- 1) (Finite 0), Correct_line,
          Test_progress ''tests/b'' [] 1 (- 1) (Finite (- 100)), Wrong_line ''y'' ''x'',
          Test_progress ''tests/c'' [] 2 (- 1) (Finite (- 200)), Process_took (Finite 2),
          Wrong_line ''8'' ''7'', Done_testing ''app'',
          Correct_out_of 1 3 (Finite (2345390243441541 / 70368744177664)),
          Tests_that_failed, Name_list [''tests/b'', ''tests/c''],
          Went_overtime 1 3 (Finite (2345390243441541 / 70368744177664)),
          Name_list [''tests/c'']],
         Inr True)"
  by code_simp


section \<open>The printed times\<close>

lemma round_half_even_small:
  assumes "0 \<le> x" and "x < 1 / 2"
  shows "round_half_even x = 0"
proof -
  from assms have "\<lfloor>x\<rfloor> = 0" by (simp add: floor_eq_iff)
  with assms show ?thesis by (simp add: round_half_even_def)
qed

lemma small_duration_rounds_to_zero:
  assumes "0 \<le> q" and "q < 5 / 100000"
  shows "py_round 4 (Finite q) = Finite 0"
proof -
  have p: "pow10 4 = 10000" by (simp add: pow10_def)
  from assms have "0 \<le> q * 10000" and "q * 10000 < 1 / 2" by simp_all
  then have "round_half_even (q * 10000) = 0" by (rule round_half_even_small)
  then show ?thesis by (simp add: p round_to_double_def)
qed

lemma after_invocation_times:
  assumes "timer cfg" and "after_invocation cfg w st name indata outdata out t = (fl, l, st')"
  shows "times_l st' = times_l st @ [t]"
  using assms
  by (auto simp: after_invocation_def Let_def split: sum.splits prod.splits if_splits)

lemma printed_times_nonzero: "Finite 0 \<notin> set (printed_times ts)"
  by (simp add: printed_times_def py_truthy_def)

lemma printed_times_length: "length (printed_times ts) \<le> length ts"
  using length_filter_le[of py_truthy "map (py_round 4) ts"] by (simp add: printed_times_def)

text \<open>
  Claim C10.  With the timer, the duration of every case whose invocation returned is
  appended to the recorded times.  A duration that rounds to zero at 4 decimal places,
  as every duration of less than 0.00005 seconds does, is left out of the printed
  list: the list of the line \<^verbatim>\<open>Times:\<close> holds no zero and can be shorter than the
  recorded list.
\<close>

theorem fast_cases_missing_from_times:
  "(timer cfg \<and> after_invocation cfg w st name indata outdata out t = (fl, l, st') \<longrightarrow>
      times_l st' = times_l st @ [t])
   \<and> (0 \<le> q \<and> q < 5 / 100000 \<longrightarrow>
        py_round 4 (Finite q) = Finite 0
        \<and> printed_times (ts @ [Finite q]) = printed_times ts)
   \<and> Finite 0 \<notin> set (printed_times ts)
   \<and> length (printed_times ts) \<le> length ts
   \<and> (timer cfg \<and> total_n st0 \<noteq> 0 \<longrightarrow>
        Times_line (printed_times (times_l st0)) \<in> set (fst (report cfg st0)))"
proof -
  have a: "printed_times (ts @ [Finite q]) = printed_times ts"
    if "0 \<le> q" "q < 5 / 100000"
    using small_duration_rounds_to_zero[OF that]
    by (simp add: printed_times_def py_truthy_def del: py_round.simps)
  from a after_invocation_times[of cfg w st name indata outdata out t fl l st']
    small_duration_rounds_to_zero[of q] printed_times_nonzero[of ts] printed_times_length[of ts]
    report_contents[of st0 cfg]
  show ?thesis by blast
qed

text \<open>
  The example directory with the timer: three cases are evaluated and three durations
  recorded, and the ten microseconds of the first are not printed.
\<close>

theorem fast_cases_missing_from_times_witness:
  "timer (demo_config\<lparr>timer := True\<rparr>)
   \<and> after_invocation (demo_config\<lparr>timer := True\<rparr>) demo_world (initial_stats 4) ''tests/a''
        ''5'' ''5'' ''5'' (Finite (1 / 100000))
      = (Next, [], (initial_stats 4)\<lparr>times_l := [Finite (1 / 100000)], correct := 1, total_n := 1\<rparr>)
   \<and> (0 :: rat) \<le> 1 / 100000 \<and> (1 :: rat) / 100000 < 5 / 100000
   \<and> py_round 4 (Finite (1 / 100000)) = Finite 0
   \<and> printed_times ([] @ [Finite (1 / 100000)]) = printed_times []
   \<and> testing_loop (demo_config\<lparr>timer := True\<rparr>) demo_world
      = Inr (Next, [Error_missing_out ''tests/d.in''],
             \<lparr>approx_total = 3, total_n = 3, correct = 1, overtime_count = 1,
               wrong = [''tests/b'', ''tests/c''], overtime = [''tests/c''],
               times_l = [Finite (1 / 100000), Finite (1 / 4), Finite 2]\<rparr>)
   \<and> printed_times [Finite (1 / 100000), Finite (1 / 4), Finite 2] = [Finite (1 / 4), Finite 2]
   \<and> Times_line [Finite (1 / 4), Finite 2] \<in> set (fst (main (demo_config\<lparr>timer := True\<rparr>) demo_world))"
proof -
  have h1: "timer (demo_config\<lparr>timer := True\<rparr>)"
    by simp
  have h2: "after_invocation (demo_config\<lparr>timer := True\<rparr>) demo_world (initial_stats 4)
        ''tests/a'' ''5'' ''5'' ''5'' (Finite (1 / 100000))
      = (Next, [], (initial_stats 4)\<lparr>times_l := [Finite (1 / 100000)], correct := 1, total_n := 1\<rparr>)"
    by code_simp
  have h3: "(0 :: rat) \<le> 1 / 100000 \<and> (1 :: rat) / 100000 < 5 / 100000"
    by simp
  have h4: "testing_loop (demo_config\<lparr>timer := True\<rparr>) demo_world
      = Inr (Next, [Error_missing_out ''tests/d.in''],
             \<lparr>approx_total = 3, total_n = 3, correct = 1, overtime_count = 1,
               wrong = [''tests/b'', ''tests/c''], overtime = [''tests/c''],
               times_l = [Finite (1 / 100000), Finite (1 / 4), Finite 2]\<rparr>)"
    by code_simp
  have h5: "printed_times [Finite (1 / 100000), Finite (1 / 4), Finite 2]
      = [Finite (1 / 4), Finite 2]"
    by code_simp
  have h6: "Times_line [Finite (1 / 4), Finite 2]
      \<in> set (fst (main (demo_config\<lparr>timer := True\<rparr>) demo_world))"
    by code_simp
  note t = fast_cases_missing_from_times[where cfg = "demo_config\<lparr>timer := True\<rparr>"
      and q = "1 / 100000" and ts = "[]"]
  from t h3 have c: "py_round 4 (Finite (1 / 100000)) = Finite 0
      \<and> printed_times ([] @ [Finite (1 / 100000)]) = printed_times []"
    by blast
  from h1 h2 h3 h4 h5 h6 c show ?thesis by blast
qed


end
